theory Spec2Isabelle
  imports Main "HOL-Library.Multiset"
begin

section \<open>Data model\<close>

text \<open>
  The service of \<^verbatim>\<open>src/index.js\<close> keeps three document collections behind the
  Mongoose models \<^verbatim>\<open>Category\<close>, \<^verbatim>\<open>Promo\<close> and \<^verbatim>\<open>Gallery\<close> (lines 38-72).
  A request body is the parsed JSON object \<^verbatim>\<open>req.body\<close>; every schema path is a
  string (or, for \<^verbatim>\<open>specs\<close>, a Mixed value), and a path the body does not carry is
  \<^verbatim>\<open>undefined\<close>, here \<open>None\<close>. Bodies whose values have another JSON type than the
  schema's, and keys outside the schema, are not represented.

  Every stored document carries the \<^verbatim>\<open>_id\<close> the driver generates and the two
  timestamps of \<^verbatim>\<open>{ timestamps: true }\<close>. Identifiers are drawn from a counter kept
  with the collections; times are milliseconds, supplied by the caller of a handler.
  The version key \<^verbatim>\<open>__v\<close> stays 0 on every path of this program and is left out.
\<close>

type_synonym objectid = nat
type_synonym time = nat

text \<open>
  A Mixed value is whatever JSON the body carried: an object is the list of its
  members in the order JavaScript enumerates them, its keys distinct property names
  other than the three the library reserves (\<^verbatim>\<open>__proto__\<close>, \<^verbatim>\<open>constructor\<close>,
  \<^verbatim>\<open>prototype\<close>); numbers are the integers a JavaScript number holds exactly.
\<close>

datatype mixed =
    MNull
  | MBool bool
  | MNum int
  | MStr string
  | MArr "mixed list"
  | MObj "(string \<times> mixed) list"

text \<open>The embedded product of \<^verbatim>\<open>categorySchema.products\<close> (lines 44-51).\<close>

record product_body =
  pb_id :: "string option"
  pb_title :: "string option"
  pb_description :: "string option"
  pb_longDescription :: "string option"
  pb_image :: "string option"
  pb_specs :: "mixed option"

record product_doc =
  p_oid :: objectid
  p_id :: "string option"
  p_title :: "string option"
  p_description :: "string option"
  p_longDescription :: "string option"
  p_image :: "string option"
  p_specs :: "mixed option"

text \<open>\<^verbatim>\<open>categorySchema\<close> (lines 38-52).\<close>

record category_body =
  cb_id :: "string option"
  cb_type :: "string option"
  cb_title :: "string option"
  cb_description :: "string option"
  cb_image :: "string option"
  cb_products :: "product_body list option"

record category_doc =
  c_oid :: objectid
  c_id :: "string option"
  c_type :: "string option"
  c_title :: "string option"
  c_description :: "string option"
  c_image :: "string option"
  c_products :: "product_doc list"
  c_createdAt :: time
  c_updatedAt :: time

text \<open>\<^verbatim>\<open>promoSchema\<close> (lines 54-61).\<close>

record promo_body =
  prb_tagText :: "string option"
  prb_title :: "string option"
  prb_description :: "string option"
  prb_highlightText :: "string option"
  prb_buttonText :: "string option"
  prb_buttonLink :: "string option"

record promo_doc =
  pr_oid :: objectid
  pr_fields :: promo_body
  pr_createdAt :: time
  pr_updatedAt :: time

text \<open>\<^verbatim>\<open>gallerySchema\<close> (lines 63-68).\<close>

record gallery_body =
  gb_url :: "string option"
  gb_title :: "string option"
  gb_location :: "string option"
  gb_category :: "string option"

record gallery_doc =
  g_oid :: objectid
  g_url :: "string option"
  g_title :: "string option"
  g_location :: "string option"
  g_category :: "string option"
  g_createdAt :: time
  g_updatedAt :: time

text \<open>
  The database: each collection in its natural (insertion) order, and the source of
  fresh identifiers.
\<close>

record store =
  categories :: "category_doc list"
  promos :: "promo_doc list"
  gallery :: "gallery_doc list"
  next_oid :: objectid

text \<open>The bodies of the two sync routes: \<^verbatim>\<open>{ categories }\<close> and \<^verbatim>\<open>{ items }\<close>.\<close>

record products_sync_body =
  sb_categories :: "category_body list option"

record gallery_sync_body =
  sb_items :: "gallery_body list option"

subsection \<open>Errors and responses\<close>

text \<open>
  Whatever a handler's \<^verbatim>\<open>try\<close> block throws reaches its \<^verbatim>\<open>catch\<close>, which answers
  \<^verbatim>\<open>res.status(500).json({ error: error.message })\<close>. The message is kept as the
  kind of the error that was thrown.
\<close>

datatype error =
    ValidationError
  | DuplicateKeyError
  | CastError
  | TypeError

datatype payload =
    CategoryList "category_doc list"
  | CategoryDoc category_doc
  | SyncMessage bool string
  | Success bool
  | PromoPlain promo_body
  | PromoDoc promo_doc
  | GalleryList "gallery_doc list"
  | GalleryDoc gallery_doc
  | SyncCount bool nat
  | ErrorMessage error

datatype response = Response nat payload

definition json :: "payload \<Rightarrow> response" where
  "json p = Response 200 p"

definition status_json :: "nat \<Rightarrow> payload \<Rightarrow> response" where
  "status_json code p = Response code p"

definition fail :: "error \<Rightarrow> response" where
  "fail e = status_json 500 (ErrorMessage e)"

section \<open>The store operations the handlers call\<close>

subsection \<open>Schema validation\<close>

text \<open>
  \<^verbatim>\<open>required: true\<close> on a String path rejects \<^verbatim>\<open>undefined\<close> and the empty
  string; \<^verbatim>\<open>enum\<close> rejects a present value outside the list.
\<close>

definition required_ok :: "string option \<Rightarrow> bool" where
  "required_ok v = (case v of None \<Rightarrow> False | Some s \<Rightarrow> s \<noteq> [])"

definition enum_ok :: "string list \<Rightarrow> string option \<Rightarrow> bool" where
  "enum_ok allowed v = (case v of None \<Rightarrow> True | Some s \<Rightarrow> List.member allowed s)"

definition validate_product :: "product_body \<Rightarrow> bool" where
  "validate_product p = (required_ok (pb_id p) \<and> required_ok (pb_title p))"

definition validate_category :: "category_body \<Rightarrow> bool" where
  "validate_category b =
     (required_ok (cb_id b) \<and>
      required_ok (cb_type b) \<and> enum_ok [''windows'', ''doors''] (cb_type b) \<and>
      required_ok (cb_title b) \<and>
      list_all validate_product (case cb_products b of None \<Rightarrow> [] | Some ps \<Rightarrow> ps))"

definition validate_gallery :: "gallery_body \<Rightarrow> bool" where
  "validate_gallery b =
     (required_ok (gb_url b) \<and> required_ok (gb_title b) \<and> required_ok (gb_location b))"

subsection \<open>Casting a body to a document\<close>

text \<open>
  A document is written to the store as a clone made with the schema option
  \<^verbatim>\<open>minimize\<close>, which neither schema of lines 38-52 switches off. The clone of an
  object keeps a member only when the member's own clone is defined, and is itself
  \<^verbatim>\<open>undefined\<close> (here \<open>None\<close>) when no member is left, unless the object is an
  element of an array (\<open>isArrayChild\<close>); the elements of an array are cloned in place.
\<close>

function clone :: "bool \<Rightarrow> mixed \<Rightarrow> mixed option"
  and cloneObject :: "(string \<times> mixed) list \<Rightarrow> (string \<times> mixed) list"
  and cloneArray :: "mixed list \<Rightarrow> mixed list" where
  "clone isArrayChild (MObj kvs) =
     (let ret = cloneObject kvs
      in if isArrayChild then Some (MObj ret)
         else if ret = [] then None else Some (MObj ret))"
| "clone isArrayChild (MArr xs) = Some (MArr (cloneArray xs))"
| "clone isArrayChild (MStr str) = Some (MStr str)"
| "clone isArrayChild (MNum n) = Some (MNum n)"
| "clone isArrayChild (MBool b) = Some (MBool b)"
| "clone isArrayChild MNull = Some MNull"
| "cloneObject [] = []"
| "cloneObject ((key, v) # kvs) =
     (case clone False v of
        None \<Rightarrow> cloneObject kvs
      | Some val \<Rightarrow> (key, val) # cloneObject kvs)"
| "cloneArray [] = []"
| "cloneArray (x # xs) =
     (case clone True x of None \<Rightarrow> MNull | Some y \<Rightarrow> y) # cloneArray xs"
  by pat_completeness auto
termination
  by (relation "measure (\<lambda>a. case a of
        Inl (_, v) \<Rightarrow> size v
      | Inr (Inl kvs) \<Rightarrow> size_list (size_prod (\<lambda>_. 0) size) kvs
      | Inr (Inr xs) \<Rightarrow> size_list size xs)") simp_all

text \<open>
  Building a document applies the schema defaults (\<^verbatim>\<open>specs: {}\<close>, an empty
  \<^verbatim>\<open>products\<close> array, \<^verbatim>\<open>category: 'General'\<close>) and gives the document and each
  embedded product an \<^verbatim>\<open>_id\<close>. What the store keeps of \<^verbatim>\<open>specs\<close> is its minimized
  clone, so an empty \<^verbatim>\<open>specs\<close>, the default included, is not stored at all.
\<close>

definition cast_product :: "objectid \<Rightarrow> product_body \<Rightarrow> product_doc" where
  "cast_product n p =
     \<lparr> p_oid = n, p_id = pb_id p, p_title = pb_title p,
       p_description = pb_description p, p_longDescription = pb_longDescription p,
       p_image = pb_image p,
       p_specs = clone False (case pb_specs p of None \<Rightarrow> MObj [] | Some m \<Rightarrow> m) \<rparr>"

definition cast_products :: "objectid \<Rightarrow> product_body list \<Rightarrow> product_doc list" where
  "cast_products n ps = map (\<lambda>(k, p). cast_product k p) (zip [n ..< n + length ps] ps)"

definition body_products :: "category_body \<Rightarrow> product_body list" where
  "body_products b = (case cb_products b of None \<Rightarrow> [] | Some ps \<Rightarrow> ps)"

definition new_category :: "objectid \<Rightarrow> time \<Rightarrow> category_body \<Rightarrow> category_doc" where
  "new_category n now b =
     \<lparr> c_oid = n, c_id = cb_id b, c_type = cb_type b, c_title = cb_title b,
       c_description = cb_description b, c_image = cb_image b,
       c_products = cast_products (Suc n) (body_products b),
       c_createdAt = now, c_updatedAt = now \<rparr>"

definition new_promo :: "objectid \<Rightarrow> time \<Rightarrow> promo_body \<Rightarrow> promo_doc" where
  "new_promo n now b =
     \<lparr> pr_oid = n, pr_fields = b, pr_createdAt = now, pr_updatedAt = now \<rparr>"

definition new_gallery :: "objectid \<Rightarrow> time \<Rightarrow> gallery_body \<Rightarrow> gallery_doc" where
  "new_gallery n now b =
     \<lparr> g_oid = n, g_url = gb_url b, g_title = gb_title b, g_location = gb_location b,
       g_category = (case gb_category b of None \<Rightarrow> Some ''General'' | Some c \<Rightarrow> Some c),
       g_createdAt = now, g_updatedAt = now \<rparr>"

subsection \<open>Searching a collection\<close>

fun update_first :: "('a \<Rightarrow> bool) \<Rightarrow> ('a \<Rightarrow> 'a) \<Rightarrow> 'a list \<Rightarrow> 'a list" where
  "update_first P f [] = []"
| "update_first P f (x # xs) = (if P x then f x # xs else x # update_first P f xs)"

fun delete_first :: "('a \<Rightarrow> bool) \<Rightarrow> 'a list \<Rightarrow> 'a list" where
  "delete_first P [] = []"
| "delete_first P (x # xs) = (if P x then xs else x # delete_first P xs)"

definition has_key :: "string \<Rightarrow> category_doc \<Rightarrow> bool" where
  "has_key k d = (c_id d = Some k)"

subsection \<open>Category model\<close>

text \<open>
  \<^verbatim>\<open>Category.create(doc)\<close>: build the document, validate it, insert it. The unique
  index on \<^verbatim>\<open>id\<close> (line 39) refuses a key that is already stored.
\<close>

definition Category_create ::
  "time \<Rightarrow> category_body \<Rightarrow> store \<Rightarrow> (error + category_doc) \<times> store" where
  "Category_create now b s =
     (let doc = new_category (next_oid s) now b;
          s1 = s\<lparr>next_oid := Suc (next_oid s) + length (body_products b)\<rparr>
      in if \<not> validate_category b then (Inl ValidationError, s1)
         else if list_ex (\<lambda>d. c_id d = c_id doc) (categories s) then (Inl DuplicateKeyError, s1)
         else (Inr doc, s1\<lparr>categories := categories s @ [doc]\<rparr>))"

definition Category_find :: "store \<Rightarrow> category_doc list" where
  "Category_find s = categories s"

definition Category_deleteMany :: "store \<Rightarrow> store" where
  "Category_deleteMany s = s\<lparr>categories := []\<rparr>"

text \<open>\<^verbatim>\<open>Category.findOneAndDelete({ id })\<close>: the first match, or \<^verbatim>\<open>null\<close>.\<close>

definition Category_findOneAndDelete :: "string \<Rightarrow> store \<Rightarrow> category_doc option \<times> store" where
  "Category_findOneAndDelete k s =
     (find (has_key k) (categories s),
      s\<lparr>categories := delete_first (has_key k) (categories s)\<rparr>)"

text \<open>
  \<^verbatim>\<open>Category.findOneAndUpdate({ id }, req.body, { new: true, upsert: true,
  runValidators: true })\<close>. The body is the update, so each path it carries is
  \<^verbatim>\<open>$set\<close>; the update validators run on exactly those paths, on the value being
  set, and never look at a path the body leaves out. The timestamps plugin sets
  \<^verbatim>\<open>updatedAt\<close> on every call and \<^verbatim>\<open>createdAt\<close> on insert only.
\<close>

definition path_ok :: "('a option \<Rightarrow> bool) \<Rightarrow> 'a option \<Rightarrow> bool" where
  "path_ok chk v = (case v of None \<Rightarrow> True | Some _ \<Rightarrow> chk v)"

definition update_ok :: "category_body \<Rightarrow> bool" where
  "update_ok b =
     (path_ok required_ok (cb_id b) \<and>
      path_ok (\<lambda>v. required_ok v \<and> enum_ok [''windows'', ''doors''] v) (cb_type b) \<and>
      path_ok required_ok (cb_title b) \<and>
      list_all validate_product (body_products b))"

definition override :: "'a option \<Rightarrow> 'a option \<Rightarrow> 'a option" where
  "override new old = (case new of None \<Rightarrow> old | Some v \<Rightarrow> Some v)"

definition apply_set ::
  "time \<Rightarrow> category_body \<Rightarrow> product_doc list \<Rightarrow> category_doc \<Rightarrow> category_doc" where
  "apply_set now b ps d =
     d\<lparr> c_id := override (cb_id b) (c_id d),
        c_type := override (cb_type b) (c_type d),
        c_title := override (cb_title b) (c_title d),
        c_description := override (cb_description b) (c_description d),
        c_image := override (cb_image b) (c_image d),
        c_products := (case cb_products b of None \<Rightarrow> c_products d | Some _ \<Rightarrow> ps),
        c_updatedAt := now \<rparr>"

text \<open>The document an upsert inserts starts from the filter's equality \<^verbatim>\<open>{ id }\<close>.\<close>

definition upsert_base :: "objectid \<Rightarrow> time \<Rightarrow> string \<Rightarrow> category_doc" where
  "upsert_base n now k =
     \<lparr> c_oid = n, c_id = Some k, c_type = None, c_title = None,
       c_description = None, c_image = None, c_products = [],
       c_createdAt = now, c_updatedAt = now \<rparr>"

definition Category_findOneAndUpdate ::
  "time \<Rightarrow> string \<Rightarrow> category_body \<Rightarrow> store \<Rightarrow> (error + category_doc) \<times> store" where
  "Category_findOneAndUpdate now k b s =
     (let ps = cast_products (next_oid s) (body_products b);
          s1 = s\<lparr>next_oid := next_oid s + length (body_products b)\<rparr>
      in if \<not> update_ok b then (Inl ValidationError, s1)
         else
           (case find (has_key k) (categories s) of
              Some d \<Rightarrow>
                (let d' = apply_set now b ps d
                 in if c_id d' \<noteq> c_id d \<and> list_ex (\<lambda>x. c_id x = c_id d') (categories s)
                    then (Inl DuplicateKeyError, s1)
                    else (Inr d',
                          s1\<lparr>categories := update_first (has_key k) (\<lambda>_. d') (categories s)\<rparr>))
            | None \<Rightarrow>
                (let d' = apply_set now b ps (upsert_base (next_oid s1) now k);
                     s2 = s1\<lparr>next_oid := Suc (next_oid s1)\<rparr>
                 in if list_ex (\<lambda>x. c_id x = c_id d') (categories s)
                    then (Inl DuplicateKeyError, s2)
                    else (Inr d', s2\<lparr>categories := categories s @ [d']\<rparr>))))"

subsection \<open>Promo model\<close>

text \<open>\<^verbatim>\<open>Promo.findOne()\<close>: the first document in natural order, or \<^verbatim>\<open>null\<close>.\<close>

definition Promo_findOne :: "store \<Rightarrow> promo_doc option" where
  "Promo_findOne s = (case promos s of [] \<Rightarrow> None | p # _ \<Rightarrow> Some p)"

definition Promo_create :: "time \<Rightarrow> promo_body \<Rightarrow> store \<Rightarrow> promo_doc \<times> store" where
  "Promo_create now b s =
     (let doc = new_promo (next_oid s) now b
      in (doc, s\<lparr>promos := promos s @ [doc], next_oid := Suc (next_oid s)\<rparr>))"

text \<open>
  \<^verbatim>\<open>Object.assign(promo, req.body)\<close> copies each key the body carries onto the
  document.
\<close>

definition assign :: "promo_body \<Rightarrow> promo_body \<Rightarrow> promo_body" where
  "assign target src =
     \<lparr> prb_tagText = override (prb_tagText src) (prb_tagText target),
       prb_title = override (prb_title src) (prb_title target),
       prb_description = override (prb_description src) (prb_description target),
       prb_highlightText = override (prb_highlightText src) (prb_highlightText target),
       prb_buttonText = override (prb_buttonText src) (prb_buttonText target),
       prb_buttonLink = override (prb_buttonLink src) (prb_buttonLink target) \<rparr>"

text \<open>
  \<^verbatim>\<open>promo.save()\<close> on a document that was loaded as \<open>loaded\<close> and now reads
  \<open>doc\<close>: a document with no modified path is not written; otherwise the timestamps
  plugin sets \<^verbatim>\<open>updatedAt\<close> and the stored document is replaced.
\<close>

definition Promo_save :: "time \<Rightarrow> promo_doc \<Rightarrow> promo_doc \<Rightarrow> store \<Rightarrow> promo_doc \<times> store" where
  "Promo_save now loaded doc s =
     (if pr_fields doc = pr_fields loaded then (doc, s)
      else
        (let saved = doc\<lparr>pr_updatedAt := now\<rparr>
         in (saved,
             s\<lparr>promos := update_first (\<lambda>d. pr_oid d = pr_oid loaded) (\<lambda>_. saved) (promos s)\<rparr>)))"

subsection \<open>Gallery model\<close>

definition Gallery_create ::
  "time \<Rightarrow> gallery_body \<Rightarrow> store \<Rightarrow> (error + gallery_doc) \<times> store" where
  "Gallery_create now b s =
     (let doc = new_gallery (next_oid s) now b;
          s1 = s\<lparr>next_oid := Suc (next_oid s)\<rparr>
      in if \<not> validate_gallery b then (Inl ValidationError, s1)
         else (Inr doc, s1\<lparr>gallery := gallery s @ [doc]\<rparr>))"

text \<open>\<^verbatim>\<open>Gallery.find().sort({ createdAt: -1 })\<close>.\<close>

definition Gallery_find_sorted :: "store \<Rightarrow> gallery_doc list" where
  "Gallery_find_sorted s = sort_key (\<lambda>d. - int (g_createdAt d)) (gallery s)"

definition Gallery_deleteMany :: "store \<Rightarrow> store" where
  "Gallery_deleteMany s = s\<lparr>gallery := []\<rparr>"

text \<open>
  \<^verbatim>\<open>Gallery.insertMany(items)\<close>: an argument that is not an array is wrapped into a
  one-element array, and \<^verbatim>\<open>undefined\<close> as an element builds the empty document.
  Every document is validated before anything is written; one invalid document
  rejects the call.
\<close>

definition undefined_gallery_body :: gallery_body where
  "undefined_gallery_body =
     \<lparr> gb_url = None, gb_title = None, gb_location = None, gb_category = None \<rparr>"

definition Gallery_insertMany ::
  "time \<Rightarrow> gallery_body list option \<Rightarrow> store \<Rightarrow> (error + gallery_doc list) \<times> store" where
  "Gallery_insertMany now items s =
     (let arr = (case items of None \<Rightarrow> [undefined_gallery_body] | Some xs \<Rightarrow> xs);
          docs = map (\<lambda>(k, b). new_gallery k now b) (zip [next_oid s ..< next_oid s + length arr] arr);
          s1 = s\<lparr>next_oid := next_oid s + length arr\<rparr>
      in if \<not> list_all validate_gallery arr then (Inl ValidationError, s1)
         else (Inr docs, s1\<lparr>gallery := gallery s @ docs\<rparr>))"

text \<open>
  \<^verbatim>\<open>Gallery.findByIdAndDelete(req.params.id)\<close>: the route parameter is cast to an
  ObjectId, 24 hexadecimal digits, before the store is asked; a string that is not
  one makes the cast throw.
\<close>

definition hex_digit :: "char \<Rightarrow> nat option" where
  "hex_digit c =
     (let k = (of_char c :: nat)
      in if 48 \<le> k \<and> k \<le> 57 then Some (k - 48)
         else if 97 \<le> k \<and> k \<le> 102 then Some (k - 87)
         else if 65 \<le> k \<and> k \<le> 70 then Some (k - 55)
         else None)"

fun hex_value :: "nat \<Rightarrow> string \<Rightarrow> nat option" where
  "hex_value acc [] = Some acc"
| "hex_value acc (c # cs) =
     (case hex_digit c of None \<Rightarrow> None | Some v \<Rightarrow> hex_value (16 * acc + v) cs)"

definition castObjectId :: "string \<Rightarrow> objectid option" where
  "castObjectId str = (if length str = 24 then hex_value 0 str else None)"

definition Gallery_findByIdAndDelete ::
  "string \<Rightarrow> store \<Rightarrow> (error + gallery_doc option) \<times> store" where
  "Gallery_findByIdAndDelete str s =
     (case castObjectId str of
        None \<Rightarrow> (Inl CastError, s)
      | Some oid \<Rightarrow>
          (Inr (find (\<lambda>d. g_oid d = oid) (gallery s)),
           s\<lparr>gallery := delete_first (\<lambda>d. g_oid d = oid) (gallery s)\<rparr>))"

section \<open>Route handlers\<close>

text \<open>
  Each handler takes the time of the request where it writes a timestamp, the route
  parameter and body it reads, and the store; it returns the response and the store
  it leaves.
\<close>

text \<open>\<^verbatim>\<open>GET /api/products\<close> (lines 77-85).\<close>

definition get_products :: "store \<Rightarrow> response \<times> store" where
  "get_products s = (json (CategoryList (Category_find s)), s)"

text \<open>\<^verbatim>\<open>POST /api/category\<close> (lines 88-96).\<close>

definition post_category :: "time \<Rightarrow> category_body \<Rightarrow> store \<Rightarrow> response \<times> store" where
  "post_category now b s =
     (case Category_create now b s of
        (Inl e, s1) \<Rightarrow> (fail e, s1)
      | (Inr category, s1) \<Rightarrow> (status_json 201 (CategoryDoc category), s1))"

text \<open>
  \<^verbatim>\<open>POST /api/products/sync\<close> (lines 99-115). The loop of lines 106-108 stops at
  the first \<^verbatim>\<open>create\<close> that throws; iterating \<^verbatim>\<open>undefined\<close> throws a TypeError.
\<close>

fun create_each :: "time \<Rightarrow> category_body list \<Rightarrow> store \<Rightarrow> (error + unit) \<times> store" where
  "create_each now [] s = (Inr (), s)"
| "create_each now (cat # cats) s =
     (case Category_create now cat s of
        (Inl e, s1) \<Rightarrow> (Inl e, s1)
      | (Inr _, s1) \<Rightarrow> create_each now cats s1)"

text \<open>The decimal digits of \<^verbatim>\<open>categories.length\<close> in the template literal of line 110.\<close>

definition digit :: "nat \<Rightarrow> char" where
  "digit d = ''0123456789'' ! d"

fun string_of_nat :: "nat \<Rightarrow> string" where
  "string_of_nat n =
     (if n < 10 then [digit n]
      else string_of_nat (n div 10) @ [digit (n mod 10)])"

declare string_of_nat.simps [simp del]

definition post_products_sync ::
  "time \<Rightarrow> products_sync_body \<Rightarrow> store \<Rightarrow> response \<times> store" where
  "post_products_sync now body s =
     (let cats = sb_categories body;
          s1 = Category_deleteMany s
      in case cats of
           None \<Rightarrow> (fail TypeError, s1)
         | Some cs \<Rightarrow>
             (case create_each now cs s1 of
                (Inl e, s2) \<Rightarrow> (fail e, s2)
              | (Inr _, s2) \<Rightarrow>
                  (json (SyncMessage True
                     (''Synced '' @ string_of_nat (length cs) @ '' categories'')), s2)))"

text \<open>\<^verbatim>\<open>PUT /api/category/:id\<close> (lines 118-131).\<close>

definition put_category ::
  "time \<Rightarrow> string \<Rightarrow> category_body \<Rightarrow> store \<Rightarrow> response \<times> store" where
  "put_category now k b s =
     (case Category_findOneAndUpdate now k b s of
        (Inl e, s1) \<Rightarrow> (fail e, s1)
      | (Inr updated, s1) \<Rightarrow> (json (CategoryDoc updated), s1))"

text \<open>\<^verbatim>\<open>DELETE /api/category/:id\<close> (lines 134-143).\<close>

definition delete_category :: "string \<Rightarrow> store \<Rightarrow> response \<times> store" where
  "delete_category k s =
     (case Category_findOneAndDelete k s of
        (_, s1) \<Rightarrow> (json (Success True), s1))"

text \<open>\<^verbatim>\<open>GET /api/promo\<close> (lines 148-167), with the literal of lines 153-160.\<close>

definition default_promo :: promo_body where
  "default_promo =
     \<lparr> prb_tagText = Some ''Special Offer'',
       prb_title = Some ''Already have a quote?'',
       prb_description = Some ''We aim to beat any comparable written quotes by up to'',
       prb_highlightText = Some ''15%'',
       prb_buttonText = Some ''Learn More'',
       prb_buttonLink = Some ''#contact'' \<rparr>"

definition get_promo :: "store \<Rightarrow> response \<times> store" where
  "get_promo s =
     (case Promo_findOne s of
        None \<Rightarrow> (json (PromoPlain default_promo), s)
      | Some promo \<Rightarrow> (json (PromoDoc promo), s))"

text \<open>\<^verbatim>\<open>PUT /api/promo\<close> (lines 170-184).\<close>

definition put_promo :: "time \<Rightarrow> promo_body \<Rightarrow> store \<Rightarrow> response \<times> store" where
  "put_promo now b s =
     (case Promo_findOne s of
        Some promo \<Rightarrow>
          (case Promo_save now promo (promo\<lparr>pr_fields := assign (pr_fields promo) b\<rparr>) s of
             (saved, s1) \<Rightarrow> (json (PromoDoc saved), s1))
      | None \<Rightarrow>
          (case Promo_create now b s of
             (promo, s1) \<Rightarrow> (json (PromoDoc promo), s1)))"

text \<open>\<^verbatim>\<open>GET /api/gallery\<close> (lines 189-197).\<close>

definition get_gallery :: "store \<Rightarrow> response \<times> store" where
  "get_gallery s = (json (GalleryList (Gallery_find_sorted s)), s)"

text \<open>\<^verbatim>\<open>POST /api/gallery\<close> (lines 200-208).\<close>

definition post_gallery :: "time \<Rightarrow> gallery_body \<Rightarrow> store \<Rightarrow> response \<times> store" where
  "post_gallery now b s =
     (case Gallery_create now b s of
        (Inl e, s1) \<Rightarrow> (fail e, s1)
      | (Inr item, s1) \<Rightarrow> (status_json 201 (GalleryDoc item), s1))"

text \<open>\<^verbatim>\<open>POST /api/gallery/sync\<close> (lines 211-221).\<close>

definition post_gallery_sync ::
  "time \<Rightarrow> gallery_sync_body \<Rightarrow> store \<Rightarrow> response \<times> store" where
  "post_gallery_sync now body s =
     (let items = sb_items body;
          s1 = Gallery_deleteMany s
      in case Gallery_insertMany now items s1 of
           (Inl e, s2) \<Rightarrow> (fail e, s2)
         | (Inr created, s2) \<Rightarrow> (json (SyncCount True (length created)), s2))"

text \<open>\<^verbatim>\<open>DELETE /api/gallery/:id\<close> (lines 224-232).\<close>

definition delete_gallery :: "string \<Rightarrow> store \<Rightarrow> response \<times> store" where
  "delete_gallery str s =
     (case Gallery_findByIdAndDelete str s of
        (Inl e, s1) \<Rightarrow> (fail e, s1)
      | (Inr _, s1) \<Rightarrow> (json (Success True), s1))"

section \<open>Vocabulary of the specification\<close>

text \<open>
  What a stored document says once the fields the store generates are taken away:
  the \<^verbatim>\<open>_id\<close> of the document and of its products, and both timestamps.
\<close>

definition product_content :: "product_doc \<Rightarrow> product_body" where
  "product_content p =
     \<lparr> pb_id = p_id p, pb_title = p_title p, pb_description = p_description p,
       pb_longDescription = p_longDescription p, pb_image = p_image p,
       pb_specs = p_specs p \<rparr>"

definition category_content :: "category_doc \<Rightarrow> category_body" where
  "category_content d =
     \<lparr> cb_id = c_id d, cb_type = c_type d, cb_title = c_title d,
       cb_description = c_description d, cb_image = c_image d,
       cb_products = Some (map product_content (c_products d)) \<rparr>"

definition gallery_content :: "gallery_doc \<Rightarrow> gallery_body" where
  "gallery_content d =
     \<lparr> gb_url = g_url d, gb_title = g_title d, gb_location = g_location d,
       gb_category = g_category d \<rparr>"

text \<open>
  A Mixed value is hollow when it is an object with nothing in it but hollow objects.
  Pruning a value leaves the hollow members out of every object in it; an object that
  is an element of an array stays, pruned, even when hollow.
\<close>

fun hollow :: "mixed \<Rightarrow> bool"
  and all_hollow :: "(string \<times> mixed) list \<Rightarrow> bool" where
  "hollow (MObj kvs) = all_hollow kvs"
| "hollow (MArr xs) = False"
| "hollow (MStr str) = False"
| "hollow (MNum n) = False"
| "hollow (MBool b) = False"
| "hollow MNull = False"
| "all_hollow [] = True"
| "all_hollow ((key, v) # kvs) = (hollow v \<and> all_hollow kvs)"

fun pruned :: "mixed \<Rightarrow> mixed"
  and pruned_members :: "(string \<times> mixed) list \<Rightarrow> (string \<times> mixed) list"
  and pruned_elements :: "mixed list \<Rightarrow> mixed list" where
  "pruned (MObj kvs) = MObj (pruned_members kvs)"
| "pruned (MArr xs) = MArr (pruned_elements xs)"
| "pruned (MStr str) = MStr str"
| "pruned (MNum n) = MNum n"
| "pruned (MBool b) = MBool b"
| "pruned MNull = MNull"
| "pruned_members [] = []"
| "pruned_members ((key, v) # kvs) =
     (if hollow v then pruned_members kvs else (key, pruned v) # pruned_members kvs)"
| "pruned_elements [] = []"
| "pruned_elements (x # xs) = pruned x # pruned_elements xs"

text \<open>
  A submitted document as a listing shows it: a category always has its
  \<^verbatim>\<open>products\<close> array, empty when none was given; a product's \<^verbatim>\<open>specs\<close> is pruned,
  and is absent when it was hollow; a gallery item without \<^verbatim>\<open>category\<close> has
  \<^verbatim>\<open>'General'\<close>.
\<close>

definition listed_product :: "product_body \<Rightarrow> product_body" where
  "listed_product p =
     p\<lparr>pb_specs :=
         (case pb_specs p of
            None \<Rightarrow> None
          | Some m \<Rightarrow> if hollow m then None else Some (pruned m))\<rparr>"

definition listed_category :: "category_body \<Rightarrow> category_body" where
  "listed_category b =
     b\<lparr>cb_products :=
         Some (case cb_products b of None \<Rightarrow> [] | Some ps \<Rightarrow> map listed_product ps)\<rparr>"

definition listed_gallery :: "gallery_body \<Rightarrow> gallery_body" where
  "listed_gallery b =
     b\<lparr>gb_category := Some (case gb_category b of None \<Rightarrow> ''General'' | Some c \<Rightarrow> c)\<rparr>"

text \<open>A route parameter that reads as an ObjectId: 24 hexadecimal digits.\<close>

definition well_formed_id :: "string \<Rightarrow> bool" where
  "well_formed_id str = (length str = 24 \<and> list_all (\<lambda>c. hex_digit c \<noteq> None) str)"

section \<open>Sample data\<close>

definition empty_store :: store where
  "empty_store = \<lparr> categories = [], promos = [], gallery = [], next_oid = 0 \<rparr>"

definition oak :: product_body where
  "oak = \<lparr> pb_id = Some ''p1'', pb_title = Some ''Oak'', pb_description = None,
           pb_longDescription = None, pb_image = None, pb_specs = None \<rparr>"

definition casement :: category_body where
  "casement = \<lparr> cb_id = Some ''w1'', cb_type = Some ''windows'', cb_title = Some ''Casement'',
                cb_description = None, cb_image = None, cb_products = Some [oak] \<rparr>"

definition patio :: category_body where
  "patio = \<lparr> cb_id = Some ''d1'', cb_type = Some ''doors'', cb_title = Some ''Patio'',
             cb_description = Some ''Sliding'', cb_image = None, cb_products = None \<rparr>"

definition crate :: product_body where
  "crate = \<lparr> pb_id = Some ''p2'', pb_title = Some ''Crate'', pb_description = None,
             pb_longDescription = None, pb_image = None,
             pb_specs = Some (MObj [(''finish'', MStr ''matt''),
                                    (''extras'', MObj [(''lock'', MObj [])])]) \<rparr>"

definition shed :: category_body where
  "shed = \<lparr> cb_id = Some ''d2'', cb_type = Some ''doors'', cb_title = Some ''Shed'',
            cb_description = None, cb_image = None, cb_products = Some [crate] \<rparr>"

definition no_fields :: category_body where
  "no_fields = \<lparr> cb_id = None, cb_type = None, cb_title = None,
                 cb_description = None, cb_image = None, cb_products = None \<rparr>"

definition retitle :: category_body where
  "retitle = no_fields\<lparr>cb_title := Some ''Bay''\<rparr>"

definition restock :: category_body where
  "restock = no_fields\<lparr>cb_products := Some [oak]\<rparr>"

definition banner :: promo_body where
  "banner = \<lparr> prb_tagText = Some ''Sale'', prb_title = Some ''Spring'',
              prb_description = None, prb_highlightText = Some ''10%'',
              prb_buttonText = None, prb_buttonLink = None \<rparr>"

definition new_title :: promo_body where
  "new_title = \<lparr> prb_tagText = None, prb_title = Some ''Summer'',
                 prb_description = None, prb_highlightText = None,
                 prb_buttonText = None, prb_buttonLink = None \<rparr>"

definition photo :: "string \<Rightarrow> gallery_body" where
  "photo u = \<lparr> gb_url = Some u, gb_title = Some ''Porch'', gb_location = Some ''Leeds'',
               gb_category = None \<rparr>"

text \<open>A store that already holds one document in each collection.\<close>

definition stocked :: store where
  "stocked =
     \<lparr> categories = [new_category 0 1 casement],
       promos = [new_promo 2 1 banner],
       gallery = [new_gallery 3 1 (photo ''a.jpg'')],
       next_oid = 4 \<rparr>"

text \<open>Three photos added through \<^verbatim>\<open>POST /api/gallery\<close> at the times 1, 2 and 3.\<close>

definition album :: store where
  "album = snd (post_gallery 3 (photo ''c.jpg'')
             (snd (post_gallery 2 (photo ''b.jpg'')
               (snd (post_gallery 1 (photo ''a.jpg'') empty_store)))))"

section \<open>Properties\<close>

subsection \<open>Auxiliary facts\<close>

lemma delete_first_none: "\<not> list_ex P xs \<Longrightarrow> delete_first P xs = xs"
  by (induction xs) auto

lemma hex_value_defined:
  "(hex_value acc cs \<noteq> None) = list_all (\<lambda>c. hex_digit c \<noteq> None) cs"
  by (induction cs arbitrary: acc) (auto split: option.splits)

lemma castObjectId_defined: "(castObjectId str \<noteq> None) = well_formed_id str"
  using hex_value_defined [of 0 str]
  by (simp add: castObjectId_def well_formed_id_def del: not_None_eq)

subsection \<open>Promo: the default object\<close>

text \<open>
  Claim C4. When the promo collection is empty, \<^verbatim>\<open>GET /api/promo\<close> answers with
  status 200 and exactly the literal of lines 153-160, and the store it leaves is the
  store it found: nothing is persisted, so the collection is still empty.
\<close>

theorem get_promo_empty_default:
  assumes "promos s = []"
  shows "get_promo s =
     (Response 200 (PromoPlain
        \<lparr> prb_tagText = Some ''Special Offer'',
          prb_title = Some ''Already have a quote?'',
          prb_description = Some ''We aim to beat any comparable written quotes by up to'',
          prb_highlightText = Some ''15%'',
          prb_buttonText = Some ''Learn More'',
          prb_buttonLink = Some ''#contact'' \<rparr>), s)"
  using assms by (simp add: get_promo_def Promo_findOne_def json_def default_promo_def)

theorem get_promo_empty_default_witness:
  "promos empty_store = [] \<and> promos (snd (get_promo empty_store)) = [] \<and>
   fst (get_promo empty_store) = Response 200 (PromoPlain default_promo)"
proof -
  have h: "promos empty_store = []" by (simp add: empty_store_def)
  from get_promo_empty_default [OF h] h show ?thesis by (simp add: default_promo_def)
qed

subsection \<open>Category: delete by key\<close>

text \<open>
  Claim C7. Deleting a category by a key that no stored category has answers
  \<^verbatim>\<open>{ success: true }\<close> with status 200 and leaves the whole store as it was: the same
  documents with the same contents in the same order, and nothing added.
\<close>

theorem delete_category_absent_key:
  assumes "\<not> list_ex (has_key k) (categories s)"
  shows "delete_category k s = (Response 200 (Success True), s)"
  using assms
  by (simp add: delete_category_def Category_findOneAndDelete_def json_def delete_first_none)

theorem delete_category_absent_key_witness:
  "\<not> list_ex (has_key ''zz'') (categories stocked) \<and>
   delete_category ''zz'' stocked = (Response 200 (Success True), stocked)"
proof -
  have h: "\<not> list_ex (has_key ''zz'') (categories stocked)"
    by (simp add: stocked_def has_key_def new_category_def casement_def)
  from delete_category_absent_key [OF h] h show ?thesis by simp
qed

subsection \<open>Sync routes: a body without the array\<close>

text \<open>
  Claim C3. In both sync handlers \<^verbatim>\<open>deleteMany({})\<close> runs before the array is
  looked at. A body without \<^verbatim>\<open>categories\<close> makes the loop of the category sync throw,
  a body without \<^verbatim>\<open>items\<close> makes \<^verbatim>\<open>insertMany\<close> reject: either way the answer is
  the 500 error response and the collection is left empty, whatever it held.
\<close>

theorem sync_without_array_clears:
  "(sb_categories body = None \<longrightarrow>
      post_products_sync now body s =
        (Response 500 (ErrorMessage TypeError), s\<lparr>categories := []\<rparr>)) \<and>
   (sb_items gbody = None \<longrightarrow>
      post_gallery_sync now gbody s =
        (Response 500 (ErrorMessage ValidationError),
         s\<lparr>gallery := [], next_oid := Suc (next_oid s)\<rparr>))"
  by (simp add: post_products_sync_def Category_deleteMany_def fail_def status_json_def
      post_gallery_sync_def Gallery_deleteMany_def Gallery_insertMany_def
      undefined_gallery_body_def validate_gallery_def required_ok_def)

theorem sync_without_array_clears_witness:
  "categories stocked \<noteq> [] \<and>
   fst (post_products_sync 9 \<lparr>sb_categories = None\<rparr> stocked) =
     Response 500 (ErrorMessage TypeError) \<and>
   categories (snd (post_products_sync 9 \<lparr>sb_categories = None\<rparr> stocked)) = [] \<and>
   gallery stocked \<noteq> [] \<and>
   fst (post_gallery_sync 9 \<lparr>sb_items = None\<rparr> stocked) =
     Response 500 (ErrorMessage ValidationError) \<and>
   gallery (snd (post_gallery_sync 9 \<lparr>sb_items = None\<rparr> stocked)) = []"
  using sync_without_array_clears
    [of "\<lparr>sb_categories = None\<rparr>" 9 stocked "\<lparr>sb_items = None\<rparr>"]
  by (simp add: stocked_def)

subsection \<open>Gallery: delete by identifier\<close>

text \<open>
  Claim C10. \<^verbatim>\<open>DELETE /api/gallery/:id\<close> answers \<^verbatim>\<open>{ success: true }\<close> exactly when
  the route parameter is a well-formed identifier, whether or not a document carries
  it; when none does, the store is left as it was. A malformed identifier gets the 500
  error response and the store is left as it was.
\<close>

theorem delete_gallery_by_id:
  "fst (delete_gallery str s) =
     (if well_formed_id str then Response 200 (Success True)
      else Response 500 (ErrorMessage CastError)) \<and>
   (\<not> well_formed_id str \<longrightarrow> snd (delete_gallery str s) = s) \<and>
   (\<not> list_ex (\<lambda>d. Some (g_oid d) = castObjectId str) (gallery s) \<longrightarrow>
      snd (delete_gallery str s) = s)"
proof (cases "castObjectId str")
  case None
  then have "\<not> well_formed_id str" using castObjectId_defined [of str] by simp
  with None show ?thesis
    by (simp add: delete_gallery_def Gallery_findByIdAndDelete_def fail_def status_json_def)
next
  case (Some oid)
  then have "well_formed_id str" using castObjectId_defined [of str] by simp
  with Some show ?thesis
    by (simp add: delete_gallery_def Gallery_findByIdAndDelete_def json_def delete_first_none
        eq_commute [of oid])
qed

theorem delete_gallery_by_id_witness:
  "well_formed_id ''507f1f77bcf86cd799439011'' \<and>
   delete_gallery ''507f1f77bcf86cd799439011'' stocked = (Response 200 (Success True), stocked) \<and>
   \<not> well_formed_id ''not-an-id'' \<and>
   delete_gallery ''not-an-id'' stocked = (Response 500 (ErrorMessage CastError), stocked)"
proof -
  have a: "well_formed_id ''507f1f77bcf86cd799439011''"
    by (simp add: well_formed_id_def hex_digit_def)
  have b: "\<not> well_formed_id ''not-an-id''"
    by (simp add: well_formed_id_def)
  have c: "\<not> list_ex (\<lambda>d. Some (g_oid d) = castObjectId ''507f1f77bcf86cd799439011'')
             (gallery stocked)"
    by (simp add: stocked_def new_gallery_def castObjectId_def hex_digit_def)
  from delete_gallery_by_id [of "''507f1f77bcf86cd799439011''" stocked]
       delete_gallery_by_id [of "''not-an-id''" stocked] a b c
  show ?thesis by (simp add: prod_eq_iff)
qed

subsection \<open>Category: upsert by key and validation\<close>

text \<open>
  Claim C6. The upsert returns the resulting document, but the schema's required
  fields need not hold of it: on an empty collection, \<^verbatim>\<open>PUT /api/category/x\<close> with
  the body \<^verbatim>\<open>{}\<close> answers 200 with a stored category that has neither \<^verbatim>\<open>type\<close> nor
  \<^verbatim>\<open>title\<close>, a document that \<^verbatim>\<open>POST /api/category\<close> refuses.
\<close>

theorem put_category_skips_required:
  "put_category 1 ''x'' no_fields empty_store =
     (Response 200 (CategoryDoc (upsert_base 0 1 ''x'')),
      \<lparr> categories = [upsert_base 0 1 ''x''], promos = [], gallery = [], next_oid = 1 \<rparr>) \<and>
   c_type (upsert_base 0 1 ''x'') = None \<and>
   c_title (upsert_base 0 1 ''x'') = None \<and>
   \<not> validate_category (category_content (upsert_base 0 1 ''x'')) \<and>
   fst (post_category 1 (category_content (upsert_base 0 1 ''x'')) empty_store) =
     Response 500 (ErrorMessage ValidationError)"
  by (simp add: put_category_def Category_findOneAndUpdate_def no_fields_def empty_store_def
      body_products_def cast_products_def update_ok_def path_ok_def apply_set_def override_def
      upsert_base_def json_def validate_category_def category_content_def required_ok_def
      post_category_def Category_create_def fail_def status_json_def Let_def)

subsection \<open>Promo: upsert\<close>

lemma assign_fields:
  "prb_tagText (assign t src) =
     (case prb_tagText src of Some v \<Rightarrow> Some v | None \<Rightarrow> prb_tagText t)"
  "prb_title (assign t src) =
     (case prb_title src of Some v \<Rightarrow> Some v | None \<Rightarrow> prb_title t)"
  "prb_description (assign t src) =
     (case prb_description src of Some v \<Rightarrow> Some v | None \<Rightarrow> prb_description t)"
  "prb_highlightText (assign t src) =
     (case prb_highlightText src of Some v \<Rightarrow> Some v | None \<Rightarrow> prb_highlightText t)"
  "prb_buttonText (assign t src) =
     (case prb_buttonText src of Some v \<Rightarrow> Some v | None \<Rightarrow> prb_buttonText t)"
  "prb_buttonLink (assign t src) =
     (case prb_buttonLink src of Some v \<Rightarrow> Some v | None \<Rightarrow> prb_buttonLink t)"
  by (simp_all add: assign_def override_def split: option.splits)

text \<open>
  Claim C8, as amended. When a promo document exists, \<^verbatim>\<open>PUT /api/promo\<close> writes the
  body's fields into the first one: each of the six schema fields takes the body's
  value when the body names it and keeps its previous value otherwise; \<^verbatim>\<open>_id\<close> and
  \<^verbatim>\<open>createdAt\<close> are kept, every other promo document and every other collection is
  left alone, and the merged document is the answer. \<^verbatim>\<open>updatedAt\<close> is kept only when
  the merge changed nothing; otherwise it becomes the time of the request. When no
  promo document exists, one is created from exactly the body's fields.
\<close>

theorem put_promo_merges:
  "(promos s = p # ps \<longrightarrow>
      (\<exists>p'. put_promo now b s = (Response 200 (PromoDoc p'), s\<lparr>promos := p' # ps\<rparr>) \<and>
         prb_tagText (pr_fields p') =
           (case prb_tagText b of Some v \<Rightarrow> Some v | None \<Rightarrow> prb_tagText (pr_fields p)) \<and>
         prb_title (pr_fields p') =
           (case prb_title b of Some v \<Rightarrow> Some v | None \<Rightarrow> prb_title (pr_fields p)) \<and>
         prb_description (pr_fields p') =
           (case prb_description b of Some v \<Rightarrow> Some v | None \<Rightarrow> prb_description (pr_fields p)) \<and>
         prb_highlightText (pr_fields p') =
           (case prb_highlightText b of Some v \<Rightarrow> Some v
            | None \<Rightarrow> prb_highlightText (pr_fields p)) \<and>
         prb_buttonText (pr_fields p') =
           (case prb_buttonText b of Some v \<Rightarrow> Some v | None \<Rightarrow> prb_buttonText (pr_fields p)) \<and>
         prb_buttonLink (pr_fields p') =
           (case prb_buttonLink b of Some v \<Rightarrow> Some v | None \<Rightarrow> prb_buttonLink (pr_fields p)) \<and>
         pr_oid p' = pr_oid p \<and>
         pr_createdAt p' = pr_createdAt p \<and>
         pr_updatedAt p' = (if pr_fields p' = pr_fields p then pr_updatedAt p else now))) \<and>
   (promos s = [] \<longrightarrow>
      put_promo now b s =
        (Response 200 (PromoDoc
           \<lparr> pr_oid = next_oid s, pr_fields = b, pr_createdAt = now, pr_updatedAt = now \<rparr>),
         s\<lparr>promos := [\<lparr> pr_oid = next_oid s, pr_fields = b,
                         pr_createdAt = now, pr_updatedAt = now \<rparr>],
           next_oid := Suc (next_oid s)\<rparr>))"
proof (intro conjI impI)
  assume ps: "promos s = p # ps"
  let ?f = "assign (pr_fields p) b"
  let ?p = "p\<lparr>pr_fields := ?f,
               pr_updatedAt := (if ?f = pr_fields p then pr_updatedAt p else now)\<rparr>"
  have run: "put_promo now b s = (Response 200 (PromoDoc ?p), s\<lparr>promos := ?p # ps\<rparr>)"
  proof (cases "?f = pr_fields p")
    case True
    then have "?p = p" by simp
    moreover have "put_promo now b s = (Response 200 (PromoDoc p), s)"
      using ps True by (simp add: put_promo_def Promo_findOne_def Promo_save_def json_def)
    moreover have "s\<lparr>promos := p # ps\<rparr> = s" using ps by simp
    ultimately show ?thesis by simp
  next
    case False
    then show ?thesis
      using ps by (simp add: put_promo_def Promo_findOne_def Promo_save_def json_def Let_def)
  qed
  have fields: "pr_fields ?p = ?f" by simp
  show "\<exists>p'. put_promo now b s = (Response 200 (PromoDoc p'), s\<lparr>promos := p' # ps\<rparr>) \<and>
         prb_tagText (pr_fields p') =
           (case prb_tagText b of Some v \<Rightarrow> Some v | None \<Rightarrow> prb_tagText (pr_fields p)) \<and>
         prb_title (pr_fields p') =
           (case prb_title b of Some v \<Rightarrow> Some v | None \<Rightarrow> prb_title (pr_fields p)) \<and>
         prb_description (pr_fields p') =
           (case prb_description b of Some v \<Rightarrow> Some v | None \<Rightarrow> prb_description (pr_fields p)) \<and>
         prb_highlightText (pr_fields p') =
           (case prb_highlightText b of Some v \<Rightarrow> Some v
            | None \<Rightarrow> prb_highlightText (pr_fields p)) \<and>
         prb_buttonText (pr_fields p') =
           (case prb_buttonText b of Some v \<Rightarrow> Some v | None \<Rightarrow> prb_buttonText (pr_fields p)) \<and>
         prb_buttonLink (pr_fields p') =
           (case prb_buttonLink b of Some v \<Rightarrow> Some v | None \<Rightarrow> prb_buttonLink (pr_fields p)) \<and>
         pr_oid p' = pr_oid p \<and>
         pr_createdAt p' = pr_createdAt p \<and>
         pr_updatedAt p' = (if pr_fields p' = pr_fields p then pr_updatedAt p else now)"
    apply (rule exI [of _ ?p])
    apply (intro conjI)
    apply (rule run)
    apply (simp_all only: fields assign_fields)
    apply simp_all
    done
next
  assume "promos s = []"
  then show "put_promo now b s =
        (Response 200 (PromoDoc
           \<lparr> pr_oid = next_oid s, pr_fields = b, pr_createdAt = now, pr_updatedAt = now \<rparr>),
         s\<lparr>promos := [\<lparr> pr_oid = next_oid s, pr_fields = b,
                         pr_createdAt = now, pr_updatedAt = now \<rparr>],
           next_oid := Suc (next_oid s)\<rparr>)"
    by (simp add: put_promo_def Promo_findOne_def Promo_create_def new_promo_def json_def Let_def)
qed

text \<open>
  The claim as stated fails on \<^verbatim>\<open>updatedAt\<close>, a field of the stored document that
  the body does not name: renaming the title of the stored promo at time 5 moves it
  from 1 to 5.
\<close>

theorem put_promo_renews_updatedAt:
  "pr_updatedAt (hd (promos (snd (put_promo 5 new_title stocked)))) \<noteq>
   pr_updatedAt (hd (promos stocked))"
  by (simp add: put_promo_def Promo_findOne_def Promo_save_def stocked_def new_promo_def
      assign_def override_def new_title_def banner_def json_def Let_def)

theorem put_promo_merges_witness:
  "promos stocked = [new_promo 2 1 banner] \<and>
   put_promo 5 new_title stocked =
     (Response 200 (PromoDoc
        \<lparr> pr_oid = 2, pr_fields = banner\<lparr>prb_title := Some ''Summer''\<rparr>,
          pr_createdAt = 1, pr_updatedAt = 5 \<rparr>),
      stocked\<lparr>promos :=
        [\<lparr> pr_oid = 2, pr_fields = banner\<lparr>prb_title := Some ''Summer''\<rparr>,
           pr_createdAt = 1, pr_updatedAt = 5 \<rparr>]\<rparr>) \<and>
   promos empty_store = [] \<and>
   promos (snd (put_promo 5 banner empty_store)) = [new_promo 0 5 banner]"
proof -
  have a: "promos stocked = [new_promo 2 1 banner]" by (simp add: stocked_def)
  have e: "promos empty_store = []" by (simp add: empty_store_def)
  from put_promo_merges [of stocked "new_promo 2 1 banner" "[]" 5 new_title] a
  obtain p' where p': "put_promo 5 new_title stocked =
        (Response 200 (PromoDoc p'), stocked\<lparr>promos := [p']\<rparr>)"
      "prb_tagText (pr_fields p') = prb_tagText banner"
      "prb_title (pr_fields p') = Some ''Summer''"
      "prb_description (pr_fields p') = prb_description banner"
      "prb_highlightText (pr_fields p') = prb_highlightText banner"
      "prb_buttonText (pr_fields p') = prb_buttonText banner"
      "prb_buttonLink (pr_fields p') = prb_buttonLink banner"
      "pr_oid p' = 2" "pr_createdAt p' = 1"
      "pr_updatedAt p' = (if pr_fields p' = banner then 1 else 5)"
    by (auto simp: new_promo_def new_title_def)
  have "pr_fields p' = banner\<lparr>prb_title := Some ''Summer''\<rparr>"
    using p'(2-7) by (cases "pr_fields p'") (simp add: banner_def)
  moreover from this have "pr_fields p' \<noteq> banner" by (simp add: banner_def)
  ultimately have "p' = \<lparr> pr_oid = 2, pr_fields = banner\<lparr>prb_title := Some ''Summer''\<rparr>,
          pr_createdAt = 1, pr_updatedAt = 5 \<rparr>"
    using p'(8-10) by (cases p') simp
  with p'(1) a e put_promo_merges [of empty_store p "[]" 5 banner]
  show ?thesis by (simp add: new_promo_def empty_store_def)
qed

subsection \<open>Gallery: listing\<close>

lemma newest_first_sorted:
  "sorted_wrt (\<lambda>a b. g_createdAt b \<le> g_createdAt a) (Gallery_find_sorted s)"
proof -
  have "sorted (map (\<lambda>d. - int (g_createdAt d)) (Gallery_find_sorted s))"
    by (simp add: Gallery_find_sorted_def)
  then show ?thesis
    by (simp add: sorted_map)
qed

lemma three_sorted:
  assumes m: "mset xs = {#a, b, c#}"
    and ab: "g_createdAt a < g_createdAt b" and bc: "g_createdAt b < g_createdAt c"
    and srt: "sorted_wrt (\<lambda>x y. g_createdAt y \<le> g_createdAt x) xs"
  shows "xs = [c, b, a]"
proof -
  from m have "size (mset xs) = 3" by simp
  then have "length xs = 3" by simp
  then obtain x y z where xs: "xs = [x, y, z]"
    by (auto simp: length_Suc_conv numeral_3_eq_3)
  from m xs have "mset [x, y, z] = mset [a, b, c]" by simp
  then have sets: "set [x, y, z] = set [a, b, c]" by (rule mset_eq_setD)
  from srt xs have yx: "g_createdAt y \<le> g_createdAt x" and zy: "g_createdAt z \<le> g_createdAt y"
    by simp_all
  have "c \<in> set [a, b, c]" by simp
  then have "c \<in> set [x, y, z]" by (simp only: sets)
  then have "g_createdAt c \<le> g_createdAt x" using yx zy by auto
  moreover have "x \<in> set [x, y, z]" by simp
  then have "x \<in> set [a, b, c]" by (simp only: sets)
  ultimately have x: "x = c" using ab bc by auto
  have "a \<in> set [a, b, c]" by simp
  then have "a \<in> set [x, y, z]" by (simp only: sets)
  then have "g_createdAt z \<le> g_createdAt a" using yx zy by auto
  moreover have "z \<in> set [x, y, z]" by simp
  then have "z \<in> set [a, b, c]" by (simp only: sets)
  ultimately have z: "z = a" using ab bc by auto
  have "b \<in> set [a, b, c]" by simp
  then have "b \<in> set [x, y, z]" by (simp only: sets)
  with x z ab bc have "y = b" by auto
  with x z xs show ?thesis by simp
qed

text \<open>
  Claim C9. \<^verbatim>\<open>GET /api/gallery\<close> answers with all gallery documents, each exactly
  once, ordered by \<^verbatim>\<open>createdAt\<close> with the most recent first, and changes nothing. In
  particular, when the collection holds three items created at times \<open>t1 < t2 < t3\<close>,
  in whatever order they are stored, the answer lists them as \<open>[t3, t2, t1]\<close>.
\<close>

theorem get_gallery_newest_first:
  "get_gallery s = (Response 200 (GalleryList (Gallery_find_sorted s)), s) \<and>
   mset (Gallery_find_sorted s) = mset (gallery s) \<and>
   sorted_wrt (\<lambda>x y. g_createdAt y \<le> g_createdAt x) (Gallery_find_sorted s) \<and>
   (\<forall>a b c. mset (gallery s) = {#a, b, c#} \<and>
       g_createdAt a < g_createdAt b \<and> g_createdAt b < g_createdAt c \<longrightarrow>
       Gallery_find_sorted s = [c, b, a])"
proof -
  have perm: "mset (Gallery_find_sorted s) = mset (gallery s)"
    by (simp add: Gallery_find_sorted_def)
  show ?thesis
    using perm newest_first_sorted [of s]
    by (auto simp: get_gallery_def json_def intro: three_sorted)
qed

lemma album_gallery:
  "gallery album =
     [new_gallery 0 1 (photo ''a.jpg''), new_gallery 1 2 (photo ''b.jpg''),
      new_gallery 2 3 (photo ''c.jpg'')]"
  by (simp add: album_def post_gallery_def Gallery_create_def empty_store_def Let_def
      validate_gallery_def required_ok_def photo_def eval_nat_numeral)

theorem get_gallery_newest_first_witness:
  "fst (get_gallery album) =
     Response 200 (GalleryList
       [new_gallery 2 3 (photo ''c.jpg''), new_gallery 1 2 (photo ''b.jpg''),
        new_gallery 0 1 (photo ''a.jpg'')])"
proof -
  have "mset (gallery album) =
      {#new_gallery 0 1 (photo ''a.jpg''), new_gallery 1 2 (photo ''b.jpg''),
        new_gallery 2 3 (photo ''c.jpg'')#}"
    by (simp add: album_gallery)
  moreover have "g_createdAt (new_gallery 0 1 (photo ''a.jpg'')) <
      g_createdAt (new_gallery 1 2 (photo ''b.jpg''))"
    "g_createdAt (new_gallery 1 2 (photo ''b.jpg'')) <
      g_createdAt (new_gallery 2 3 (photo ''c.jpg''))"
    by (simp_all add: new_gallery_def)
  ultimately show ?thesis
    using get_gallery_newest_first [of album] by simp
qed

subsection \<open>What the store keeps of a Mixed value\<close>

lemma hollow_members: "all_hollow kvs = (pruned_members kvs = [])"
  by (induction kvs) (auto split: if_splits)

lemma clone_pruned:
  "clone ac v = (if ac \<or> \<not> hollow v then Some (pruned v) else None)"
  "cloneObject kvs = pruned_members kvs"
  "cloneArray xs = pruned_elements xs"
proof (induction ac v and kvs and xs rule: clone_cloneObject_cloneArray.induct)
  case (1 isArrayChild kvs)
  then show ?case by (simp add: Let_def hollow_members)
next
  case (8 key v kvs)
  then show ?case by (simp split: option.splits)
next
  case (10 x xs)
  then show ?case by simp
qed simp_all

lemma stored_specs:
  "clone False (case specs of None \<Rightarrow> MObj [] | Some m \<Rightarrow> m) =
     (case specs of None \<Rightarrow> None | Some m \<Rightarrow> if hollow m then None else Some (pruned m))"
  by (simp add: clone_pruned split: option.splits)

lemma cast_product_content: "product_content (cast_product n p) = listed_product p"
  by (simp add: product_content_def cast_product_def listed_product_def stored_specs)


subsection \<open>Sync routes: what the collection holds afterwards\<close>

lemma map_zip_ignore_fst:
  "length ks = length ps \<Longrightarrow> map (\<lambda>(k, p). f p) (zip ks ps) = map f ps"
proof (induction ps arbitrary: ks)
  case Nil
  then show ?case by simp
next
  case (Cons p ps)
  then show ?case by (cases ks) simp_all
qed

lemma cast_products_content: "map product_content (cast_products n ps) = map listed_product ps"
proof -
  have "map product_content (cast_products n ps) =
      map (\<lambda>(k, p). listed_product p) (zip [n ..< n + length ps] ps)"
    by (simp add: cast_products_def cast_product_content split_def)
  then show ?thesis by (simp add: map_zip_ignore_fst)
qed

lemma new_category_content: "category_content (new_category n now b) = listed_category b"
  by (simp add: category_content_def new_category_def listed_category_def
      cast_products_content body_products_def split: option.splits)

lemma Category_create_Inr:
  assumes "Category_create now b s = (Inr d, s')"
  shows "d = new_category (next_oid s) now b"
    and "s' = s\<lparr>next_oid := Suc (next_oid s) + length (body_products b),
                categories := categories s @ [new_category (next_oid s) now b]\<rparr>"
    and "validate_category b"
    and "\<not> list_ex (\<lambda>x. c_id x = cb_id b) (categories s)"
  using assms
  by (auto simp: Category_create_def Let_def new_category_def split: if_splits)

lemma Category_create_Inl:
  assumes "Category_create now b s = (Inl e, s')"
  shows "s' = s\<lparr>next_oid := Suc (next_oid s) + length (body_products b)\<rparr>"
  using assms
  by (auto simp: Category_create_def Let_def split: if_splits)

lemma Category_create_succeeds:
  assumes "validate_category b" and "\<not> list_ex (\<lambda>x. c_id x = cb_id b) (categories s)"
  shows "Category_create now b s =
     (Inr (new_category (next_oid s) now b),
      s\<lparr>next_oid := Suc (next_oid s) + length (body_products b),
        categories := categories s @ [new_category (next_oid s) now b]\<rparr>)"
  using assms
  by (simp add: Category_create_def Let_def new_category_def)

lemma create_each_Inr:
  "create_each now cs s = (Inr u, s') \<Longrightarrow>
     \<exists>ds. categories s' = categories s @ ds \<and>
       map category_content ds = map listed_category cs \<and>
       list_all (\<lambda>d. next_oid s \<le> c_oid d \<and> c_createdAt d = now \<and> c_updatedAt d = now) ds \<and>
       distinct (map c_oid ds) \<and>
       next_oid s \<le> next_oid s' \<and> promos s' = promos s \<and> gallery s' = gallery s"
proof (induction cs arbitrary: s)
  case Nil
  then show ?case by simp
next
  case (Cons c cs)
  let ?d = "new_category (next_oid s) now c"
  from Cons.prems obtain d s1 where
    c: "Category_create now c s = (Inr d, s1)" and rest: "create_each now cs s1 = (Inr u, s')"
    by (auto split: prod.splits sum.splits)
  note s1 = Category_create_Inr(2) [OF c]
  from Cons.IH [OF rest] obtain ds where
    cats: "categories s' = categories s1 @ ds"
    and content: "map category_content ds = map listed_category cs"
    and each: "list_all (\<lambda>d. next_oid s1 \<le> c_oid d \<and> c_createdAt d = now \<and>
        c_updatedAt d = now) ds"
    and dist: "distinct (map c_oid ds)"
    and grow: "next_oid s1 \<le> next_oid s'"
    and others: "promos s' = promos s1" "gallery s' = gallery s1"
    by blast
  have later: "next_oid s < next_oid s1" by (simp add: s1)
  have "categories s' = categories s @ ?d # ds" by (simp add: cats s1)
  moreover have "map category_content (?d # ds) = map listed_category (c # cs)"
    by (simp add: content new_category_content)
  moreover have "list_all (\<lambda>d. next_oid s \<le> c_oid d \<and> c_createdAt d = now \<and>
      c_updatedAt d = now) (?d # ds)"
    using each later by (auto simp: list_all_iff new_category_def)
  moreover have "distinct (map c_oid (?d # ds))"
    using each later dist by (auto simp: list_all_iff new_category_def)
  moreover have "next_oid s \<le> next_oid s'" using later grow by simp
  moreover have "promos s' = promos s" "gallery s' = gallery s"
    using others by (simp_all add: s1)
  ultimately show ?case by blast
qed

lemma create_each_stops:
  assumes "create_each now xs s = (Inr u, s2)" and "Category_create now y s2 = (Inl e, s3)"
  shows "create_each now (xs @ y # ys) s = (Inl e, s3)"
  using assms
proof (induction xs arbitrary: s)
  case Nil
  then show ?case by simp
next
  case (Cons x xs)
  from Cons.prems(1) obtain d s1 where
    c: "Category_create now x s = (Inr d, s1)" and rest: "create_each now xs s1 = (Inr u, s2)"
    by (auto split: prod.splits sum.splits)
  from Cons.IH [OF rest Cons.prems(2)] c show ?case by simp
qed

lemma create_each_succeeds:
  assumes "list_all validate_category cs" and "distinct (map cb_id cs)"
    and "list_all (\<lambda>c. \<not> list_ex (\<lambda>x. c_id x = cb_id c) (categories s)) cs"
  shows "\<exists>s'. create_each now cs s = (Inr (), s')"
  using assms
proof (induction cs arbitrary: s)
  case Nil
  then show ?case by simp
next
  case (Cons c cs)
  let ?s1 = "s\<lparr>next_oid := Suc (next_oid s) + length (body_products c),
        categories := categories s @ [new_category (next_oid s) now c]\<rparr>"
  from Cons.prems have c: "Category_create now c s = (Inr (new_category (next_oid s) now c), ?s1)"
    by (intro Category_create_succeeds) simp_all
  have "list_all (\<lambda>c'. \<not> list_ex (\<lambda>x. c_id x = cb_id c') (categories ?s1)) cs"
    using Cons.prems(2,3)
    by (auto simp: list_all_iff list_ex_iff new_category_def)
  with Cons.prems Cons.IH [of ?s1] obtain s' where "create_each now cs ?s1 = (Inr (), s')"
    by auto
  with c show ?case by simp
qed

text \<open>
  Claim C2. When the category sync has inserted the first \<open>k\<close> documents of its
  sequence and \<^verbatim>\<open>Category.create\<close> throws on the next one, the handler answers the
  500 error response and the collection holds exactly one document for each of those
  first \<open>k\<close>, in order, each saying what the submitted document says as a listing
  shows it. Each was created in this request: its identifier was generated after the
  request began, no two share one, and both its timestamps are the time of the
  request. The other collections are untouched. So, in a store whose identifiers all
  came from its generator, no document from before the sync remains.
\<close>

theorem sync_failure_leaves_prefix:
  assumes body: "sb_categories body = Some cs"
    and k: "k < length cs"
    and inserted: "create_each now (take k cs) (Category_deleteMany s) = (Inr (), s2)"
    and failed: "Category_create now (cs ! k) s2 = (Inl e, s3)"
  shows "post_products_sync now body s = (Response 500 (ErrorMessage e), s3) \<and>
    map category_content (categories s3) = map listed_category (take k cs) \<and>
    list_all (\<lambda>d. next_oid s \<le> c_oid d \<and> c_createdAt d = now \<and> c_updatedAt d = now)
      (categories s3) \<and>
    distinct (map c_oid (categories s3)) \<and>
    promos s3 = promos s \<and> gallery s3 = gallery s \<and>
    (list_all (\<lambda>d. c_oid d < next_oid s) (categories s) \<longrightarrow>
       set (categories s3) \<inter> set (categories s) = {})"
proof -
  have split: "cs = take k cs @ cs ! k # drop (Suc k) cs"
    using k by (rule id_take_nth_drop)
  have "create_each now (take k cs @ cs ! k # drop (Suc k) cs) (Category_deleteMany s) = (Inl e, s3)"
    using inserted failed by (rule create_each_stops)
  with split have run: "create_each now cs (Category_deleteMany s) = (Inl e, s3)" by simp
  have resp: "post_products_sync now body s = (Response 500 (ErrorMessage e), s3)"
    using body run by (simp add: post_products_sync_def fail_def status_json_def)
  from create_each_Inr [OF inserted] obtain ds where
    cats2: "categories s2 = ds"
    and content: "map category_content ds = map listed_category (take k cs)"
    and each: "list_all (\<lambda>d. next_oid s \<le> c_oid d \<and> c_createdAt d = now \<and>
        c_updatedAt d = now) ds"
    and dist: "distinct (map c_oid ds)"
    and others: "promos s2 = promos s" "gallery s2 = gallery s"
    by (auto simp: Category_deleteMany_def)
  have same: "categories s3 = categories s2" "promos s3 = promos s2" "gallery s3 = gallery s2"
    using Category_create_Inl [OF failed] by simp_all
  have "set (categories s3) \<inter> set (categories s) = {}"
    if "list_all (\<lambda>d. c_oid d < next_oid s) (categories s)"
    using that each by (fastforce simp: list_all_iff same cats2)
  then show ?thesis
    using resp content each dist others by (simp add: same cats2)
qed

theorem sync_failure_leaves_prefix_witness:
  "categories stocked \<noteq> [] \<and>
   post_products_sync 9 \<lparr>sb_categories = Some [shed, no_fields, casement]\<rparr> stocked =
     (Response 500 (ErrorMessage ValidationError),
      stocked\<lparr>categories :=
          [\<lparr> c_oid = 4, c_id = Some ''d2'', c_type = Some ''doors'', c_title = Some ''Shed'',
             c_description = None, c_image = None,
             c_products =
               [\<lparr> p_oid = 5, p_id = Some ''p2'', p_title = Some ''Crate'',
                  p_description = None, p_longDescription = None, p_image = None,
                  p_specs = Some (MObj [(''finish'', MStr ''matt'')]) \<rparr>],
             c_createdAt = 9, c_updatedAt = 9 \<rparr>],
        next_oid := 7\<rparr>) \<and>
   map category_content
     (categories (snd (post_products_sync 9
        \<lparr>sb_categories = Some [shed, no_fields, casement]\<rparr> stocked))) =
     [shed\<lparr>cb_products := Some [crate\<lparr>pb_specs := Some (MObj [(''finish'', MStr ''matt'')])\<rparr>]\<rparr>] \<and>
   set (categories (snd (post_products_sync 9
        \<lparr>sb_categories = Some [shed, no_fields, casement]\<rparr> stocked))) \<inter>
     set (categories stocked) = {}"
proof -
  let ?cs = "[shed, no_fields, casement]"
  let ?d = "\<lparr> c_oid = 4, c_id = Some ''d2'', c_type = Some ''doors'', c_title = Some ''Shed'',
             c_description = None, c_image = None,
             c_products =
               [\<lparr> p_oid = 5, p_id = Some ''p2'', p_title = Some ''Crate'',
                  p_description = None, p_longDescription = None, p_image = None,
                  p_specs = Some (MObj [(''finish'', MStr ''matt'')]) \<rparr>],
             c_createdAt = 9, c_updatedAt = 9 \<rparr>"
  let ?s2 = "stocked\<lparr>categories := [?d], next_oid := 6\<rparr>"
  let ?s3 = "stocked\<lparr>categories := [?d], next_oid := 7\<rparr>"
  have body: "sb_categories \<lparr>sb_categories = Some ?cs\<rparr> = Some ?cs" by simp
  have k: "(1::nat) < length ?cs" by simp
  have inserted: "create_each 9 (take 1 ?cs) (Category_deleteMany stocked) = (Inr (), ?s2)"
    by (simp add: Category_deleteMany_def Category_create_def Let_def stocked_def shed_def
        crate_def validate_category_def validate_product_def required_ok_def enum_ok_def
        body_products_def new_category_def cast_products_def cast_product_def)
  have failed: "Category_create 9 (?cs ! 1) ?s2 = (Inl ValidationError, ?s3)"
    by (simp add: Category_create_def Let_def stocked_def no_fields_def
        validate_category_def required_ok_def body_products_def)
  have old: "list_all (\<lambda>d. c_oid d < next_oid stocked) (categories stocked)"
    by (simp add: stocked_def new_category_def)
  have listed: "map listed_category (take 1 ?cs) =
      [shed\<lparr>cb_products := Some [crate\<lparr>pb_specs := Some (MObj [(''finish'', MStr ''matt'')])\<rparr>]\<rparr>]"
    by (simp add: listed_category_def listed_product_def shed_def crate_def)
  have stock: "categories stocked \<noteq> []" by (simp add: stocked_def)
  from sync_failure_leaves_prefix [OF body k inserted failed] old listed stock
  show ?thesis by simp
qed

lemma gallery_docs_content:
  "length ks = length xs \<Longrightarrow>
     map gallery_content (map (\<lambda>(k, b). new_gallery k now b) (zip ks xs)) =
     map listed_gallery xs"
proof -
  assume len: "length ks = length xs"
  have "map gallery_content (map (\<lambda>(k, b). new_gallery k now b) (zip ks xs)) =
      map (\<lambda>(k, b). listed_gallery b) (zip ks xs)"
    by (simp add: gallery_content_def new_gallery_def listed_gallery_def split_def
        split: option.splits)
  with len show ?thesis by (simp add: map_zip_ignore_fst)
qed

text \<open>
  Claim C1, as amended. After a category sync with a sequence of valid documents
  whose \<^verbatim>\<open>id\<close>s are pairwise distinct, the sync answers success and
  \<^verbatim>\<open>GET /api/products\<close> lists exactly one document for each submitted one, in order,
  saying what the submitted document says up to the generated identifiers and
  timestamps, with \<^verbatim>\<open>products\<close> empty where none was given and every \<^verbatim>\<open>specs\<close>
  pruned of its hollow members (absent when hollow itself). After a gallery sync with
  any sequence of valid items, \<^verbatim>\<open>GET /api/gallery\<close> lists exactly the submitted items,
  each as often as submitted, up to the same generated fields, with \<^verbatim>\<open>category\<close>
  \<^verbatim>\<open>'General'\<close> where none was given. Both hold for the empty sequence.
\<close>

theorem sync_then_list:
  "(sb_categories body = Some cs \<and> list_all validate_category cs \<and> distinct (map cb_id cs) \<longrightarrow>
      (\<exists>s' ds.
         post_products_sync now body s =
           (Response 200 (SyncMessage True
              (''Synced '' @ string_of_nat (length cs) @ '' categories'')), s') \<and>
         get_products s' = (Response 200 (CategoryList ds), s') \<and>
         map category_content ds = map listed_category cs)) \<and>
   (sb_items gbody = Some xs \<and> list_all validate_gallery xs \<longrightarrow>
      (\<exists>s' ds.
         post_gallery_sync now gbody s = (Response 200 (SyncCount True (length xs)), s') \<and>
         get_gallery s' = (Response 200 (GalleryList ds), s') \<and>
         mset (map gallery_content ds) = mset (map listed_gallery xs)))"
proof (intro conjI impI)
  assume h: "sb_categories body = Some cs \<and> list_all validate_category cs \<and>
    distinct (map cb_id cs)"
  have "list_all (\<lambda>c. \<not> list_ex (\<lambda>x. c_id x = cb_id c) (categories (Category_deleteMany s))) cs"
    by (simp add: Category_deleteMany_def list_all_iff)
  with h obtain s' where run: "create_each now cs (Category_deleteMany s) = (Inr (), s')"
    using create_each_succeeds [of cs "Category_deleteMany s" now] by auto
  from create_each_Inr [OF run]
  have cats: "map category_content (categories s') = map listed_category cs"
    by (auto simp: Category_deleteMany_def)
  have "post_products_sync now body s =
      (Response 200 (SyncMessage True
         (''Synced '' @ string_of_nat (length cs) @ '' categories'')), s')"
    using h run by (simp add: post_products_sync_def json_def)
  moreover have "get_products s' = (Response 200 (CategoryList (categories s')), s')"
    by (simp add: get_products_def Category_find_def json_def)
  ultimately show "\<exists>s' ds.
         post_products_sync now body s =
           (Response 200 (SyncMessage True
              (''Synced '' @ string_of_nat (length cs) @ '' categories'')), s') \<and>
         get_products s' = (Response 200 (CategoryList ds), s') \<and>
         map category_content ds = map listed_category cs"
    using cats by blast
next
  assume h: "sb_items gbody = Some xs \<and> list_all validate_gallery xs"
  let ?docs = "map (\<lambda>(k, b). new_gallery k now b) (zip [next_oid s ..< next_oid s + length xs] xs)"
  let ?s' = "s\<lparr>gallery := ?docs, next_oid := next_oid s + length xs\<rparr>"
  have "post_gallery_sync now gbody s = (Response 200 (SyncCount True (length xs)), ?s')"
    using h
    by (simp add: post_gallery_sync_def Gallery_deleteMany_def Gallery_insertMany_def
        Let_def json_def)
  moreover have "get_gallery ?s' = (Response 200 (GalleryList (Gallery_find_sorted ?s')), ?s')"
    by (simp add: get_gallery_def json_def)
  moreover have "mset (map gallery_content (Gallery_find_sorted ?s')) =
      mset (map listed_gallery xs)"
  proof -
    have "mset (Gallery_find_sorted ?s') = mset ?docs"
      by (simp add: Gallery_find_sorted_def)
    then have "mset (map gallery_content (Gallery_find_sorted ?s')) =
        mset (map gallery_content ?docs)"
      by (metis mset_map)
    also have "map gallery_content ?docs = map listed_gallery xs"
      by (rule gallery_docs_content) simp
    finally show ?thesis .
  qed
  ultimately show "\<exists>s' ds.
         post_gallery_sync now gbody s = (Response 200 (SyncCount True (length xs)), s') \<and>
         get_gallery s' = (Response 200 (GalleryList ds), s') \<and>
         mset (map gallery_content ds) = mset (map listed_gallery xs)"
    by blast
qed

lemmas sync_evaluation =
  post_products_sync_def Category_deleteMany_def Category_create_def Let_def
  empty_store_def patio_def shed_def crate_def validate_category_def validate_product_def
  required_ok_def enum_ok_def body_products_def new_category_def cast_products_def
  cast_product_def get_products_def Category_find_def json_def fail_def status_json_def
  category_content_def product_content_def

text \<open>
  The claim as stated fails in four ways, each shown on the empty store at time 9.
  Two valid categories with the same \<^verbatim>\<open>id\<close>: the unique index refuses the second,
  the sync answers 500 and the listing holds one document. One valid category sent
  without \<^verbatim>\<open>products\<close>: it is listed with an empty \<^verbatim>\<open>products\<close> array. One valid
  category whose product has an empty object inside its \<^verbatim>\<open>specs\<close>: the listing shows
  the \<^verbatim>\<open>specs\<close> without it. One valid gallery item sent without \<^verbatim>\<open>category\<close>: it is
  listed with \<^verbatim>\<open>'General'\<close>.
\<close>

theorem sync_listing_differs:
  "list_all validate_category [patio, patio] \<and>
   fst (post_products_sync 9 \<lparr>sb_categories = Some [patio, patio]\<rparr> empty_store) =
     Response 500 (ErrorMessage DuplicateKeyError) \<and>
   fst (get_products
          (snd (post_products_sync 9 \<lparr>sb_categories = Some [patio, patio]\<rparr> empty_store))) =
     Response 200 (CategoryList
       [\<lparr> c_oid = 0, c_id = Some ''d1'', c_type = Some ''doors'', c_title = Some ''Patio'',
          c_description = Some ''Sliding'', c_image = None, c_products = [],
          c_createdAt = 9, c_updatedAt = 9 \<rparr>]) \<and>
   list_all validate_category [patio] \<and> distinct (map cb_id [patio]) \<and>
   fst (get_products
          (snd (post_products_sync 9 \<lparr>sb_categories = Some [patio]\<rparr> empty_store))) =
     Response 200 (CategoryList
       [\<lparr> c_oid = 0, c_id = Some ''d1'', c_type = Some ''doors'', c_title = Some ''Patio'',
          c_description = Some ''Sliding'', c_image = None, c_products = [],
          c_createdAt = 9, c_updatedAt = 9 \<rparr>]) \<and>
   cb_products patio = None \<and>
   map category_content
     [\<lparr> c_oid = 0, c_id = Some ''d1'', c_type = Some ''doors'', c_title = Some ''Patio'',
        c_description = Some ''Sliding'', c_image = None, c_products = [],
        c_createdAt = 9, c_updatedAt = 9 \<rparr>] \<noteq> [patio] \<and>
   list_all validate_category [shed] \<and> distinct (map cb_id [shed]) \<and>
   fst (get_products
          (snd (post_products_sync 9 \<lparr>sb_categories = Some [shed]\<rparr> empty_store))) =
     Response 200 (CategoryList
       [\<lparr> c_oid = 0, c_id = Some ''d2'', c_type = Some ''doors'', c_title = Some ''Shed'',
          c_description = None, c_image = None,
          c_products =
            [\<lparr> p_oid = 1, p_id = Some ''p2'', p_title = Some ''Crate'',
               p_description = None, p_longDescription = None, p_image = None,
               p_specs = Some (MObj [(''finish'', MStr ''matt'')]) \<rparr>],
          c_createdAt = 9, c_updatedAt = 9 \<rparr>]) \<and>
   map category_content
     [\<lparr> c_oid = 0, c_id = Some ''d2'', c_type = Some ''doors'', c_title = Some ''Shed'',
        c_description = None, c_image = None,
        c_products =
          [\<lparr> p_oid = 1, p_id = Some ''p2'', p_title = Some ''Crate'',
             p_description = None, p_longDescription = None, p_image = None,
             p_specs = Some (MObj [(''finish'', MStr ''matt'')]) \<rparr>],
        c_createdAt = 9, c_updatedAt = 9 \<rparr>] \<noteq> [shed] \<and>
   list_all validate_gallery [photo ''a.jpg''] \<and>
   fst (get_gallery
          (snd (post_gallery_sync 9 \<lparr>sb_items = Some [photo ''a.jpg'']\<rparr> empty_store))) =
     Response 200 (GalleryList
       [\<lparr> g_oid = 0, g_url = Some ''a.jpg'', g_title = Some ''Porch'',
          g_location = Some ''Leeds'', g_category = Some ''General'',
          g_createdAt = 9, g_updatedAt = 9 \<rparr>]) \<and>
   map gallery_content
     [\<lparr> g_oid = 0, g_url = Some ''a.jpg'', g_title = Some ''Porch'',
        g_location = Some ''Leeds'', g_category = Some ''General'',
        g_createdAt = 9, g_updatedAt = 9 \<rparr>] \<noteq> [photo ''a.jpg'']"
  by (simp add: sync_evaluation post_gallery_sync_def Gallery_deleteMany_def
      Gallery_insertMany_def validate_gallery_def photo_def new_gallery_def get_gallery_def
      Gallery_find_sorted_def gallery_content_def)

theorem sync_then_list_witness:
  "list_all validate_category [shed, patio] \<and> distinct (map cb_id [shed, patio]) \<and>
   fst (post_products_sync 9 \<lparr>sb_categories = Some [shed, patio]\<rparr> stocked) =
     Response 200 (SyncMessage True ''Synced 2 categories'') \<and>
   map category_content
     (categories (snd (post_products_sync 9 \<lparr>sb_categories = Some [shed, patio]\<rparr> stocked))) =
     [shed\<lparr>cb_products := Some [crate\<lparr>pb_specs := Some (MObj [(''finish'', MStr ''matt'')])\<rparr>]\<rparr>,
      patio\<lparr>cb_products := Some []\<rparr>] \<and>
   list_all validate_gallery [photo ''b.jpg'', photo ''c.jpg''] \<and>
   fst (post_gallery_sync 9 \<lparr>sb_items = Some [photo ''b.jpg'', photo ''c.jpg'']\<rparr> stocked) =
     Response 200 (SyncCount True 2) \<and>
   mset (map gallery_content
     (Gallery_find_sorted
        (snd (post_gallery_sync 9 \<lparr>sb_items = Some [photo ''b.jpg'', photo ''c.jpg'']\<rparr>
                stocked)))) =
     {#(photo ''b.jpg'')\<lparr>gb_category := Some ''General''\<rparr>,
       (photo ''c.jpg'')\<lparr>gb_category := Some ''General''\<rparr>#} \<and>
   categories (snd (post_products_sync 9 \<lparr>sb_categories = Some []\<rparr> stocked)) = []"
proof -
  let ?B = "\<lparr>sb_categories = Some [shed, patio]\<rparr>"
  let ?G = "\<lparr>sb_items = Some [photo ''b.jpg'', photo ''c.jpg'']\<rparr>"
  have a: "list_all validate_category [shed, patio]"
    by (simp add: patio_def shed_def crate_def validate_category_def validate_product_def
        required_ok_def enum_ok_def)
  have b: "distinct (map cb_id [shed, patio])"
    by (simp add: patio_def shed_def)
  have c: "list_all validate_gallery [photo ''b.jpg'', photo ''c.jpg'']"
    by (simp add: photo_def validate_gallery_def required_ok_def)
  have two: "string_of_nat (Suc (Suc 0)) = ''2''" by (simp add: string_of_nat.simps digit_def)
  have lc: "map listed_category [shed, patio] =
      [shed\<lparr>cb_products := Some [crate\<lparr>pb_specs := Some (MObj [(''finish'', MStr ''matt'')])\<rparr>]\<rparr>,
       patio\<lparr>cb_products := Some []\<rparr>]"
    by (simp add: listed_category_def listed_product_def shed_def crate_def patio_def)
  have lg: "map listed_gallery [photo ''b.jpg'', photo ''c.jpg''] =
      [(photo ''b.jpg'')\<lparr>gb_category := Some ''General''\<rparr>,
       (photo ''c.jpg'')\<lparr>gb_category := Some ''General''\<rparr>]"
    by (simp add: listed_gallery_def photo_def)
  note both = sync_then_list [where body = ?B and cs = "[shed, patio]"
      and gbody = ?G and xs = "[photo ''b.jpg'', photo ''c.jpg'']" and now = 9 and s = stocked]
  have prem1: "sb_categories ?B = Some [shed, patio] \<and>
      list_all validate_category [shed, patio] \<and> distinct (map cb_id [shed, patio])"
    using a b by simp
  have prem2: "sb_items ?G = Some [photo ''b.jpg'', photo ''c.jpg''] \<and>
      list_all validate_gallery [photo ''b.jpg'', photo ''c.jpg'']"
    using c by simp
  from both [THEN conjunct1, THEN mp, OF prem1] obtain s1 ds where
    p: "post_products_sync 9 ?B stocked =
          (Response 200 (SyncMessage True
             (''Synced '' @ string_of_nat (length [shed, patio]) @ '' categories'')), s1)"
    and l: "get_products s1 = (Response 200 (CategoryList ds), s1)"
    and m: "map category_content ds = map listed_category [shed, patio]"
    by blast
  from l have ds: "ds = categories s1"
    by (simp add: get_products_def Category_find_def json_def)
  from both [THEN conjunct2, THEN mp, OF prem2] obtain s2 gs where
    q: "post_gallery_sync 9 ?G stocked =
          (Response 200 (SyncCount True (length [photo ''b.jpg'', photo ''c.jpg''])), s2)"
    and r: "get_gallery s2 = (Response 200 (GalleryList gs), s2)"
    and n: "mset (map gallery_content gs) =
          mset (map listed_gallery [photo ''b.jpg'', photo ''c.jpg''])"
    by blast
  from r have gs: "gs = Gallery_find_sorted s2"
    by (simp add: get_gallery_def json_def)
  have prem0: "sb_categories \<lparr>sb_categories = Some []\<rparr> = Some [] \<and>
      list_all validate_category [] \<and> distinct (map cb_id [])"
    by simp
  from sync_then_list [where body = "\<lparr>sb_categories = Some []\<rparr>" and cs = "[]"
      and now = 9 and s = stocked, THEN conjunct1, THEN mp, OF prem0]
  obtain s0 ds0 where
    p0: "snd (post_products_sync 9 \<lparr>sb_categories = Some []\<rparr> stocked) = s0"
    and l0: "get_products s0 = (Response 200 (CategoryList ds0), s0)"
    and m0: "map category_content ds0 = map listed_category []"
    by force
  from l0 m0 have e0: "categories s0 = []"
    by (simp add: get_products_def Category_find_def json_def)
  have cat: "map category_content (categories (snd (post_products_sync 9 ?B stocked))) =
      [shed\<lparr>cb_products := Some [crate\<lparr>pb_specs := Some (MObj [(''finish'', MStr ''matt'')])\<rparr>]\<rparr>,
       patio\<lparr>cb_products := Some []\<rparr>]"
    using p m ds by (simp only: lc snd_conv)
  have gal: "mset (map gallery_content (Gallery_find_sorted (snd (post_gallery_sync 9 ?G stocked)))) =
      {#(photo ''b.jpg'')\<lparr>gb_category := Some ''General''\<rparr>,
        (photo ''c.jpg'')\<lparr>gb_category := Some ''General''\<rparr>#}"
    using q n [unfolded lg] gs by simp
  from a b c p q two p0 e0 cat gal show ?thesis by simp
qed

subsection \<open>Category: applying an upsert twice\<close>

lemma find_update_first:
  "find P xs = Some d \<Longrightarrow> P y \<Longrightarrow> find P (update_first P (\<lambda>_. y) xs) = Some y"
  by (induction xs) (auto split: if_splits)

lemma list_ex_update_first:
  "find P xs = Some d \<Longrightarrow> Q y \<Longrightarrow> list_ex Q (update_first P (\<lambda>_. y) xs)"
  by (induction xs) (auto split: if_splits)

lemma find_snoc:
  "find P xs = None \<Longrightarrow> find P (xs @ [y]) = (if P y then Some y else None)"
  by (induction xs) (auto split: if_splits)

lemma find_Some_holds: "find P xs = Some d \<Longrightarrow> P d"
  by (induction xs) (auto split: if_splits)

lemma update_first_split:
  "find P xs = Some d \<Longrightarrow>
     \<exists>pre post. xs = pre @ d # post \<and> update_first P f xs = pre @ f d # post"
proof (induction xs)
  case Nil
  then show ?case by simp
next
  case (Cons x xs)
  show ?case
  proof (cases "P x")
    case True
    with Cons.prems have "x = d" by simp
    with True have "x # xs = [] @ d # xs \<and> update_first P f (x # xs) = [] @ f d # xs" by simp
    then show ?thesis by blast
  next
    case False
    with Cons.prems have "find P xs = Some d" by simp
    from Cons.IH [OF this] obtain pre post where
      "xs = pre @ d # post" "update_first P f xs = pre @ f d # post" by blast
    with False have "x # xs = (x # pre) @ d # post \<and>
        update_first P f (x # xs) = (x # pre) @ f d # post" by simp
    then show ?thesis by blast
  qed
qed

lemma cast_products_same_content:
  "map product_content (cast_products m ps) = map product_content (cast_products n ps)"
  by (simp add: cast_products_content)

lemma override_twice: "override x (override x y) = override x y"
  by (simp add: override_def split: option.splits)

lemma apply_set_id: "c_id (apply_set now b ps d) = override (cb_id b) (c_id d)"
  by (simp add: apply_set_def)

lemma apply_set_again:
  "apply_set t2 b ps2 (apply_set t1 b ps1 d) =
     (apply_set t1 b ps1 d)\<lparr>c_updatedAt := t2,
        c_products := (case cb_products b of None \<Rightarrow> c_products d | Some _ \<Rightarrow> ps2)\<rparr>"
  by (simp add: apply_set_def override_twice split: option.splits)

lemma apply_set_products:
  "c_products (apply_set t1 b ps1 d) =
     (case cb_products b of None \<Rightarrow> c_products d | Some _ \<Rightarrow> ps1)"
  by (simp add: apply_set_def)

lemma update_cats_invalid:
  "\<not> update_ok b \<Longrightarrow> categories (snd (Category_findOneAndUpdate now k b s)) = categories s"
  by (simp add: Category_findOneAndUpdate_def Let_def)

lemma update_cats_found:
  "update_ok b \<Longrightarrow> find (has_key k) (categories s) = Some d \<Longrightarrow>
   categories (snd (Category_findOneAndUpdate now k b s)) =
     (if override (cb_id b) (c_id d) \<noteq> c_id d \<and>
         list_ex (\<lambda>x. c_id x = override (cb_id b) (c_id d)) (categories s)
      then categories s
      else update_first (has_key k)
             (\<lambda>_. apply_set now b (cast_products (next_oid s) (body_products b)) d)
             (categories s))"
  by (simp add: Category_findOneAndUpdate_def Let_def apply_set_id)

lemma update_cats_absent:
  "update_ok b \<Longrightarrow> find (has_key k) (categories s) = None \<Longrightarrow>
   categories (snd (Category_findOneAndUpdate now k b s)) =
     (if list_ex (\<lambda>x. c_id x = override (cb_id b) (Some k)) (categories s)
      then categories s
      else categories s @
             [apply_set now b (cast_products (next_oid s) (body_products b))
                (upsert_base (next_oid s + length (body_products b)) now k)])"
  by (simp add: Category_findOneAndUpdate_def Let_def apply_set_id upsert_base_def)

lemma update_keeps_others:
  "promos (snd (Category_findOneAndUpdate now k b s)) = promos s \<and>
   gallery (snd (Category_findOneAndUpdate now k b s)) = gallery s"
  by (simp add: Category_findOneAndUpdate_def Let_def split: option.splits)

lemma snd_put_category:
  "snd (put_category now k b s) = snd (Category_findOneAndUpdate now k b s)"
  by (simp add: put_category_def split: prod.splits sum.splits)


lemma renewed_shape:
  assumes d1: "d1 = apply_set t1 b (cast_products n (body_products b)) d0"
    and d2: "d2 = apply_set t2 b (cast_products m (body_products b)) d1"
  shows "\<exists>ps. d2 = d1\<lparr>c_updatedAt := t2, c_products := ps\<rparr> \<and>
      map product_content ps = map product_content (c_products d1) \<and>
      (cb_products b = None \<and> ps = c_products d1 \<or> cb_products b \<noteq> None)"
proof (cases "cb_products b")
  case None
  have "d2 = d1\<lparr>c_updatedAt := t2, c_products := c_products d1\<rparr>"
    unfolding d2 d1 by (simp add: apply_set_again apply_set_products None)
  with None show ?thesis by blast
next
  case (Some ps0)
  let ?ps = "cast_products m (body_products b)"
  have "d2 = d1\<lparr>c_updatedAt := t2, c_products := ?ps\<rparr>"
    unfolding d2 d1 by (simp add: apply_set_again Some)
  moreover have "map product_content ?ps = map product_content (c_products d1)"
    unfolding d1 by (simp add: apply_set_products Some cast_products_content)
  ultimately show ?thesis using Some by blast
qed

lemma upsert_twice_categories:
  fixes t1 t2 k b s
  defines "c1 \<equiv> categories (snd (Category_findOneAndUpdate t1 k b s))"
    and "c2 \<equiv> categories (snd (Category_findOneAndUpdate t2 k b
                                   (snd (Category_findOneAndUpdate t1 k b s))))"
  shows "c2 = c1 \<or>
    (\<exists>pre d post ps. c1 = pre @ d # post \<and> c_id d = Some k \<and>
        c2 = pre @ d\<lparr>c_updatedAt := t2, c_products := ps\<rparr> # post \<and>
        map product_content ps = map product_content (c_products d) \<and>
        (cb_products b = None \<and> ps = c_products d \<or> cb_products b \<noteq> None))"
proof (cases "update_ok b")
  case False
  then show ?thesis by (simp add: c1_def c2_def update_cats_invalid)
next
  case ok: True
  let ?s1 = "snd (Category_findOneAndUpdate t1 k b s)"
  let ?j = "override (cb_id b) (Some k)"
  let ?ps1 = "cast_products (next_oid s) (body_products b)"
  let ?ps2 = "cast_products (next_oid ?s1) (body_products b)"
  show ?thesis
  proof (cases "find (has_key k) (categories s)")
    case (Some d)
    then have key: "c_id d = Some k"
      using find_Some_holds [of "has_key k"] by (simp add: has_key_def)
    let ?d1 = "apply_set t1 b ?ps1 d"
    let ?d2 = "apply_set t2 b ?ps2 ?d1"
    have id1: "c_id ?d1 = ?j" by (simp add: apply_set_id key)
    show ?thesis
    proof (cases "?j = Some k")
      case same: True
      have cats1: "c1 = update_first (has_key k) (\<lambda>_. ?d1) (categories s)"
        using ok Some key same by (simp add: c1_def update_cats_found)
      have k1: "has_key k ?d1" using id1 same by (simp add: has_key_def)
      have f1: "find (has_key k) (categories ?s1) = Some ?d1"
        using cats1 find_update_first [OF Some k1] by (simp add: c1_def)
      have cats2: "c2 = update_first (has_key k) (\<lambda>_. ?d2) c1"
        using ok f1 id1 same by (simp add: c1_def c2_def update_cats_found)
      from update_first_split [OF f1, of "\<lambda>_. ?d2"] obtain pre post where
        pp: "c1 = pre @ ?d1 # post" "c2 = pre @ ?d2 # post"
        by (auto simp: cats2 c1_def)
      from renewed_shape [OF refl refl, of t2 b "next_oid ?s1" t1 "next_oid s" d]
      obtain ps where "?d2 = ?d1\<lparr>c_updatedAt := t2, c_products := ps\<rparr>"
        "map product_content ps = map product_content (c_products ?d1)"
        "cb_products b = None \<and> ps = c_products ?d1 \<or> cb_products b \<noteq> None"
        by blast
      with pp id1 same show ?thesis by metis
    next
      case other: False
      show ?thesis
      proof (cases "list_ex (\<lambda>x. c_id x = ?j) (categories s)")
        case True
        then have cats1: "categories ?s1 = categories s"
          using ok Some key other by (simp add: update_cats_found)
        then have "find (has_key k) (categories ?s1) = Some d" using Some by simp
        then have "categories (snd (Category_findOneAndUpdate t2 k b ?s1)) = categories ?s1"
          using ok key other True cats1 by (simp add: update_cats_found)
        then show ?thesis by (simp add: c1_def c2_def)
      next
        case False
        then have cats1: "categories ?s1 = update_first (has_key k) (\<lambda>_. ?d1) (categories s)"
          using ok Some key other by (simp add: update_cats_found)
        have taken: "list_ex (\<lambda>x. c_id x = ?j) (categories ?s1)"
          unfolding cats1 using Some id1 by (rule list_ex_update_first)
        have "categories (snd (Category_findOneAndUpdate t2 k b ?s1)) = categories ?s1"
        proof (cases "find (has_key k) (categories ?s1)")
          case None
          then show ?thesis using ok taken by (simp add: update_cats_absent)
        next
          case (Some e)
          then have "c_id e = Some k"
            using find_Some_holds [of "has_key k"] by (simp add: has_key_def)
          then show ?thesis using ok Some taken other by (simp add: update_cats_found)
        qed
        then show ?thesis by (simp add: c1_def c2_def)
      qed
    qed
  next
    case None
    let ?base = "upsert_base (next_oid s + length (body_products b)) t1 k"
    let ?d1 = "apply_set t1 b ?ps1 ?base"
    let ?d2 = "apply_set t2 b ?ps2 ?d1"
    have id1: "c_id ?d1 = ?j" by (simp add: apply_set_id upsert_base_def)
    show ?thesis
    proof (cases "list_ex (\<lambda>x. c_id x = ?j) (categories s)")
      case True
      then have cats1: "categories ?s1 = categories s"
        using ok None by (simp add: update_cats_absent)
      then have "find (has_key k) (categories ?s1) = None" using None by simp
      then have "categories (snd (Category_findOneAndUpdate t2 k b ?s1)) = categories ?s1"
        using ok True cats1 by (simp add: update_cats_absent)
      then show ?thesis by (simp add: c1_def c2_def)
    next
      case False
      then have cats1: "c1 = categories s @ [?d1]"
        using ok None by (simp add: c1_def update_cats_absent)
      show ?thesis
      proof (cases "?j = Some k")
        case same: True
        have k1: "has_key k ?d1" using id1 same by (simp add: has_key_def)
        have f1: "find (has_key k) (categories ?s1) = Some ?d1"
          using cats1 None k1 by (simp add: c1_def find_snoc)
        have "c2 = update_first (has_key k) (\<lambda>_. ?d2) c1"
          using ok f1 id1 same by (simp add: c1_def c2_def update_cats_found)
        with update_first_split [OF f1, of "\<lambda>_. ?d2"] obtain pre post where
          pp: "c1 = pre @ ?d1 # post" "c2 = pre @ ?d2 # post"
          by (auto simp: c1_def)
        from renewed_shape [OF refl refl, of t2 b "next_oid ?s1" t1 "next_oid s" ?base]
        obtain ps where "?d2 = ?d1\<lparr>c_updatedAt := t2, c_products := ps\<rparr>"
          "map product_content ps = map product_content (c_products ?d1)"
          "cb_products b = None \<and> ps = c_products ?d1 \<or> cb_products b \<noteq> None"
          by blast
        with pp id1 same show ?thesis by metis
      next
        case other: False
        have nk: "\<not> has_key k ?d1" using id1 other by (simp add: has_key_def)
        have f1: "find (has_key k) (categories ?s1) = None"
          using cats1 None nk by (simp add: c1_def find_snoc)
        have taken: "list_ex (\<lambda>x. c_id x = ?j) (categories ?s1)"
          using cats1 id1 by (simp add: c1_def)
        have "categories (snd (Category_findOneAndUpdate t2 k b ?s1)) = categories ?s1"
          using ok f1 taken by (simp add: update_cats_absent)
        then show ?thesis by (simp add: c1_def c2_def)
      qed
    qed
  qed
qed


text \<open>
  Claim C5, as amended. For every key, body, store and pair of request times, applying
  \<^verbatim>\<open>PUT /api/category/:id\<close> a second time with the same key and body leaves the
  promo and gallery collections as they were and the category collection as the first
  application left it, with at most one exception: one document, whose key is the
  route's \<^verbatim>\<open>id\<close>, may carry a new \<^verbatim>\<open>updatedAt\<close>, the time of the second request,
  and, only when the body gives \<^verbatim>\<open>products\<close>, new identifiers on its embedded
  products, which otherwise say what they said. Every other document, and in that one
  every schema field, \<^verbatim>\<open>_id\<close> and \<^verbatim>\<open>createdAt\<close>, is the same after two applications
  as after one.
\<close>

theorem put_category_twice:
  "promos (snd (put_category t2 k b (snd (put_category t1 k b s)))) =
     promos (snd (put_category t1 k b s)) \<and>
   gallery (snd (put_category t2 k b (snd (put_category t1 k b s)))) =
     gallery (snd (put_category t1 k b s)) \<and>
   (categories (snd (put_category t2 k b (snd (put_category t1 k b s)))) =
      categories (snd (put_category t1 k b s)) \<or>
    (\<exists>pre d post ps.
       categories (snd (put_category t1 k b s)) = pre @ d # post \<and>
       c_id d = Some k \<and>
       categories (snd (put_category t2 k b (snd (put_category t1 k b s)))) =
         pre @ d\<lparr>c_updatedAt := t2, c_products := ps\<rparr> # post \<and>
       map product_content ps = map product_content (c_products d) \<and>
       (cb_products b = None \<and> ps = c_products d \<or> cb_products b \<noteq> None)))"
  using upsert_twice_categories [of t2 k b t1 s]
  by (simp only: snd_put_category update_keeps_others)

lemmas upsert_evaluation =
  put_category_def Category_findOneAndUpdate_def Let_def stocked_def retitle_def restock_def
  no_fields_def oak_def update_ok_def path_ok_def required_ok_def validate_product_def
  body_products_def cast_products_def cast_product_def has_key_def new_category_def
  casement_def apply_set_def override_def json_def

lemma restock_once:
  "categories (snd (put_category 5 ''w1'' restock stocked)) =
     [\<lparr> c_oid = 0, c_id = Some ''w1'', c_type = Some ''windows'', c_title = Some ''Casement'',
        c_description = None, c_image = None,
        c_products =
          [\<lparr> p_oid = 4, p_id = Some ''p1'', p_title = Some ''Oak'', p_description = None,
             p_longDescription = None, p_image = None, p_specs = None \<rparr>],
        c_createdAt = 1, c_updatedAt = 5 \<rparr>]"
  by (simp add: upsert_evaluation)

text \<open>
  The claim as stated fails in two ways on the stored category \<^verbatim>\<open>w1\<close>. Retitling it
  at time 5 and again, with the same body, at time 7 leaves a document whose
  \<^verbatim>\<open>updatedAt\<close> is 7, not 5. Giving it the same \<^verbatim>\<open>products\<close> twice, both at time 5,
  leaves a product whose generated identifier is 5, not 4.
\<close>

theorem put_category_twice_differs:
  "categories (snd (put_category 5 ''w1'' retitle stocked)) =
     [\<lparr> c_oid = 0, c_id = Some ''w1'', c_type = Some ''windows'', c_title = Some ''Bay'',
        c_description = None, c_image = None,
        c_products =
          [\<lparr> p_oid = 1, p_id = Some ''p1'', p_title = Some ''Oak'', p_description = None,
             p_longDescription = None, p_image = None, p_specs = None \<rparr>],
        c_createdAt = 1, c_updatedAt = 5 \<rparr>] \<and>
   categories (snd (put_category 7 ''w1'' retitle (snd (put_category 5 ''w1'' retitle stocked)))) =
     [\<lparr> c_oid = 0, c_id = Some ''w1'', c_type = Some ''windows'', c_title = Some ''Bay'',
        c_description = None, c_image = None,
        c_products =
          [\<lparr> p_oid = 1, p_id = Some ''p1'', p_title = Some ''Oak'', p_description = None,
             p_longDescription = None, p_image = None, p_specs = None \<rparr>],
        c_createdAt = 1, c_updatedAt = 7 \<rparr>] \<and>
   categories (snd (put_category 7 ''w1'' retitle (snd (put_category 5 ''w1'' retitle stocked)))) \<noteq>
     categories (snd (put_category 5 ''w1'' retitle stocked)) \<and>
   categories (snd (put_category 5 ''w1'' restock stocked)) =
     [\<lparr> c_oid = 0, c_id = Some ''w1'', c_type = Some ''windows'', c_title = Some ''Casement'',
        c_description = None, c_image = None,
        c_products =
          [\<lparr> p_oid = 4, p_id = Some ''p1'', p_title = Some ''Oak'', p_description = None,
             p_longDescription = None, p_image = None, p_specs = None \<rparr>],
        c_createdAt = 1, c_updatedAt = 5 \<rparr>] \<and>
   categories (snd (put_category 5 ''w1'' restock (snd (put_category 5 ''w1'' restock stocked)))) =
     [\<lparr> c_oid = 0, c_id = Some ''w1'', c_type = Some ''windows'', c_title = Some ''Casement'',
        c_description = None, c_image = None,
        c_products =
          [\<lparr> p_oid = 5, p_id = Some ''p1'', p_title = Some ''Oak'', p_description = None,
             p_longDescription = None, p_image = None, p_specs = None \<rparr>],
        c_createdAt = 1, c_updatedAt = 5 \<rparr>] \<and>
   categories (snd (put_category 5 ''w1'' restock (snd (put_category 5 ''w1'' restock stocked)))) \<noteq>
     categories (snd (put_category 5 ''w1'' restock stocked))"
  by (simp add: upsert_evaluation)

theorem put_category_twice_witness:
  "map category_content
     (categories (snd (put_category 7 ''w1'' restock (snd (put_category 5 ''w1'' restock stocked))))) =
     [casement] \<and>
   map c_oid
     (categories (snd (put_category 7 ''w1'' restock (snd (put_category 5 ''w1'' restock stocked))))) =
     [0] \<and>
   map c_createdAt
     (categories (snd (put_category 7 ''w1'' restock (snd (put_category 5 ''w1'' restock stocked))))) =
     [1]"
proof -
  let ?D = "\<lparr> c_oid = 0, c_id = Some ''w1'', c_type = Some ''windows'', c_title = Some ''Casement'',
        c_description = None, c_image = None,
        c_products =
          [\<lparr> p_oid = 4, p_id = Some ''p1'', p_title = Some ''Oak'', p_description = None,
             p_longDescription = None, p_image = None, p_specs = None \<rparr>],
        c_createdAt = 1, c_updatedAt = 5 \<rparr>"
  let ?twice = "categories (snd (put_category 7 ''w1'' restock
                   (snd (put_category 5 ''w1'' restock stocked))))"
  have content: "category_content ?D = casement"
    by (simp add: category_content_def product_content_def casement_def oak_def)
  from put_category_twice [of 7 "''w1''" restock 5 stocked]
  have "?twice = [?D] \<or>
    (\<exists>pre d post ps. [?D] = pre @ d # post \<and> ?twice = pre @ d\<lparr>c_updatedAt := 7, c_products := ps\<rparr> # post \<and>
       map product_content ps = map product_content (c_products d))"
    unfolding restock_once by blast
  then show ?thesis
  proof
    assume "?twice = [?D]"
    then show ?thesis using content by simp
  next
    assume "\<exists>pre d post ps. [?D] = pre @ d # post \<and>
       ?twice = pre @ d\<lparr>c_updatedAt := 7, c_products := ps\<rparr> # post \<and>
       map product_content ps = map product_content (c_products d)"
    then obtain pre d post ps where
      shape: "[?D] = pre @ d # post"
      and tw: "?twice = pre @ d\<lparr>c_updatedAt := 7, c_products := ps\<rparr> # post"
      and same: "map product_content ps = map product_content (c_products d)"
      by blast
    from shape have "pre = []" "post = []" "d = ?D"
      by (simp_all add: Cons_eq_append_conv)
    with tw same have "?twice = [?D\<lparr>c_updatedAt := 7, c_products := ps\<rparr>]"
      "map product_content ps = map product_content (c_products ?D)"
      by simp_all
    then show ?thesis
      using content by (simp add: category_content_def)
  qed
qed

end
